theory Spec2Isabelle
  imports Main
begin

section \<open>Database models (src/app/main.py, lines 20-44)\<close>

text \<open>
  The two SQLAlchemy models are records, one value per table row. Python integers are
  \<open>int\<close>; a \<open>datetime\<close> is an abstract point in time. The relationships \<open>clicks\<close> and
  \<open>url\<close> are derived from the foreign key and hold no data of their own.
\<close>

type_synonym datetime = nat

record UrlMapping =
  id :: int
  original_url :: string
  short_code :: string
  created_at :: datetime

record Click =
  id :: int
  url_id :: int
  clicked_at :: datetime
  ip_address :: string
  user_agent :: string

text \<open>The SQLite file: the rows of each table, in insertion (rowid) order.\<close>

record database =
  url_mappings :: "UrlMapping list"
  clicks :: "Click list"

definition empty_database :: database where
  "empty_database = \<lparr>url_mappings = [], clicks = []\<rparr>"

text \<open>
  An instance built by a constructor call and not yet flushed has no primary key and no
  column default: \<open>UrlMapping(original_url=u, short_code=c)\<close> and
  \<open>Click(url_id=i, ip_address=a, user_agent=b)\<close>. Once flushed it is a row.
\<close>

datatype transient = New_UrlMapping string string | New_Click int string string

datatype persistent = Row_UrlMapping UrlMapping | Row_Click Click

datatype db_exception = IntegrityError | InvalidRequestError

section \<open>Storage: INSERT, flush, session\<close>

text \<open>
  An INTEGER PRIMARY KEY column takes the largest rowid of the table plus one, and 1 in an
  empty table.
\<close>

definition next_rowid :: "int list \<Rightarrow> int" where
  "next_rowid ids = fold max ids 0 + 1"

text \<open>
  One INSERT statement. The only constraint that can fail is \<open>unique=True\<close> on
  \<open>short_code\<close>; the check is part of the statement itself. \<open>created_at\<close> and
  \<open>clicked_at\<close> take the column default \<open>datetime.utcnow\<close>, read when the row is written.
  SQLite stores a string whole whatever width the column declares (\<open>String(10)\<close>,
  \<open>String(50)\<close>, \<open>String(255)\<close>), and does not check foreign keys unless asked to.
\<close>

fun insert_row :: "datetime \<Rightarrow> transient \<Rightarrow> database \<Rightarrow> db_exception + (persistent \<times> database)" where
  "insert_row now (New_UrlMapping u c) d =
     (if c \<in> set (map UrlMapping.short_code (url_mappings d)) then Inl IntegrityError
      else
        let row = \<lparr>UrlMapping.id = next_rowid (map UrlMapping.id (url_mappings d)),
                   original_url = u, short_code = c, created_at = now\<rparr>
        in Inr (Row_UrlMapping row, d\<lparr>url_mappings := url_mappings d @ [row]\<rparr>))"
| "insert_row now (New_Click i a b) d =
     (let row = \<lparr>Click.id = next_rowid (map Click.id (clicks d)),
                 url_id = i, clicked_at = now, ip_address = a, user_agent = b\<rparr>
      in Inr (Row_Click row, d\<lparr>clicks := clicks d @ [row]\<rparr>))"

text \<open>
  A flush writes the pending instances in the order they were added, inside one
  transaction: the first failing INSERT aborts it and nothing of it is kept.
\<close>

fun flush :: "datetime \<Rightarrow> transient list \<Rightarrow> database \<Rightarrow> db_exception + (persistent list \<times> database)" where
  "flush now [] d = Inr ([], d)"
| "flush now (x # xs) d =
     (case insert_row now x d of
        Inl e \<Rightarrow> Inl e
      | Inr (p, d') \<Rightarrow>
          (case flush now xs d' of
             Inl e \<Rightarrow> Inl e
           | Inr (ps, d'') \<Rightarrow> Inr (p # ps, d'')))"

text \<open>
  A session (\<open>db\<close> in the handlers): the committed database it reads, and the instances
  added and not yet flushed (\<open>Session.new\<close>). \<open>get_db\<close> hands every request a fresh one.
\<close>

record Session =
  bind :: database
  new :: "transient list"

definition SessionLocal :: "database \<Rightarrow> Session" where
  "SessionLocal d = \<lparr>bind = d, new = []\<rparr>"

definition add :: "transient \<Rightarrow> Session \<Rightarrow> Session" where
  "add x db = db\<lparr>new := new db @ [x]\<rparr>"

text \<open>
  \<open>db.commit()\<close> flushes and commits. On success the pending instances have become
  rows, returned in the order they were added (the handler's variable denotes the last
  one). On failure the exception is raised, the database is as before, and the instances
  stay pending until \<open>db.rollback()\<close> discards them.
\<close>

definition commit :: "datetime \<Rightarrow> Session \<Rightarrow> db_exception + (persistent list \<times> Session)" where
  "commit now db =
     (case flush now (new db) (bind db) of
        Inl e \<Rightarrow> Inl e
      | Inr (ps, d') \<Rightarrow> Inr (ps, \<lparr>bind = d', new = []\<rparr>))"

definition rollback :: "Session \<Rightarrow> Session" where
  "rollback db = db\<lparr>new := []\<rparr>"

text \<open>\<open>db.refresh(url)\<close>: read the instance's row again, by primary key.\<close>

definition refresh :: "UrlMapping \<Rightarrow> Session \<Rightarrow> UrlMapping option" where
  "refresh m db = find (\<lambda>r. UrlMapping.id r = UrlMapping.id m) (url_mappings (bind db))"

text \<open>\<open>db.query(UrlMapping).filter(UrlMapping.short_code == short_code).first()\<close>\<close>

definition query_UrlMapping_first :: "string \<Rightarrow> Session \<Rightarrow> UrlMapping option" where
  "query_UrlMapping_first code db =
     find (\<lambda>m. UrlMapping.short_code m = code) (url_mappings (bind db))"

text \<open>\<open>db.query(Click).filter(Click.url_id == i).count()\<close>\<close>

definition query_Click_count :: "int \<Rightarrow> Session \<Rightarrow> int" where
  "query_Click_count i db = int (length (filter (\<lambda>c. Click.url_id c = i) (clicks (bind db))))"

section \<open>Constants and the code generator (lines 56, 75-77)\<close>

definition digits :: string where
  "digits = ''0123456789''"

definition ascii_lowercase :: string where
  "ascii_lowercase = ''abcdefghijklmnopqrstuvwxyz''"

definition ascii_uppercase :: string where
  "ascii_uppercase = ''ABCDEFGHIJKLMNOPQRSTUVWXYZ''"

definition ascii_letters :: string where
  "ascii_letters = ascii_lowercase @ ascii_uppercase"

definition BASE62_CHARS :: string where
  "BASE62_CHARS = digits @ ascii_letters"

text \<open>
  The state of the module \<open>random\<close> is the sequence of draws still to come.
  \<open>random.choice(seq)\<close> takes the next draw, reduced below \<open>len(seq)\<close>, as an index
  (the only sequence it is given here is \<open>BASE62_CHARS\<close>, which is not empty).
\<close>

type_synonym rng = "nat \<Rightarrow> nat"

definition advance :: "nat \<Rightarrow> rng \<Rightarrow> rng" where
  "advance n g = (\<lambda>i. g (i + n))"

definition random_choice :: "'a list \<Rightarrow> rng \<Rightarrow> 'a \<times> rng" where
  "random_choice seq g = (seq ! (g 0 mod length seq), advance 1 g)"

text \<open>The generator expression: one \<open>random.choice\<close> for each element of \<open>range(length)\<close>.\<close>

fun choices :: "nat \<Rightarrow> rng \<Rightarrow> string \<times> rng" where
  "choices 0 g = ([], g)"
| "choices (Suc n) g =
     (let (c, g') = random_choice BASE62_CHARS g;
          (cs, g'') = choices n g'
      in (c # cs, g''))"

text \<open>\<open>range(length)\<close> is empty for a negative \<open>length\<close>.\<close>

definition generate_short_code :: "int \<Rightarrow> rng \<Rightarrow> string \<times> rng" where
  "generate_short_code len g = choices (nat len) g"

section \<open>Requests and responses (lines 60-71)\<close>

text \<open>
  \<open>ShortenRequest.original_url\<close> is the validated URL as \<open>str()\<close> renders it; validation
  itself is pydantic's and happens before the handler runs.
\<close>

record ShortenRequest =
  original_url :: string

record ShortenResponse =
  short_code :: string
  original_url :: string

record StatsResponse =
  short_code :: string
  original_url :: string
  total_clicks :: int
  created_at :: datetime

text \<open>
  \<open>RedirectResponse(url=..., status_code=...)\<close>: the record holds the arguments of the
  constructor. The constructor does not send \<open>url\<close> as it is: it sets the header
  \<open>location\<close> to \<open>quote(str(url), safe=":/%#?=@[]!$&'()*+,;")\<close>, given by \<open>location\<close> below.
\<close>

record RedirectResponse =
  url :: string
  status_code :: nat

text \<open>
  \<open>urllib.parse.quote\<close>, on the UTF-8 bytes of the string (a \<open>char\<close> is one byte): a byte
  that is a letter, a digit, one of \<open>_.-~\<close> or listed in \<open>safe\<close> stays; any other byte \<open>b\<close>
  becomes \<open>'%{:02X}'.format(b)\<close>, a percent sign and two upper-case hexadecimal digits.
\<close>

definition always_safe :: string where
  "always_safe = ''ABCDEFGHIJKLMNOPQRSTUVWXYZabcdefghijklmnopqrstuvwxyz0123456789_.-~''"

definition quoter :: "string \<Rightarrow> char \<Rightarrow> string" where
  "quoter safe c =
     (if c \<in> set always_safe \<or> c \<in> set safe then [c]
      else [CHR ''%'', ''0123456789ABCDEF'' ! (of_char c div 16),
            ''0123456789ABCDEF'' ! (of_char c mod 16)])"

definition quote :: "string \<Rightarrow> string \<Rightarrow> string" where
  "quote s safe = concat (map (quoter safe) s)"

text \<open>The \<open>Location\<close> header of the response, as the constructor of \<open>RedirectResponse\<close> sets it.\<close>

definition location :: "RedirectResponse \<Rightarrow> string" where
  "location r = quote (url r) '':/%#?=@[]!$&'()*+,;''"

record Address =
  host :: string
  port :: int

text \<open>The part of a request the handlers read; header names are lower case.\<close>

record Request =
  client :: "Address option"
  headers :: "(string \<times> string) list"

definition headers_get :: "(string \<times> string) list \<Rightarrow> string \<Rightarrow> string \<Rightarrow> string" where
  "headers_get hs name dflt = (case map_of hs name of None \<Rightarrow> dflt | Some v \<Rightarrow> v)"

text \<open>
  A handler fails by raising \<open>HTTPException(status_code, detail)\<close>, or by letting another
  exception escape, which the framework answers with status 500.
\<close>

datatype failure = HTTPException nat string | Unhandled db_exception

fun status_of :: "failure \<Rightarrow> nat" where
  "status_of (HTTPException s detail) = s"
| "status_of (Unhandled e) = 500"

section \<open>Endpoints\<close>

subsection \<open>POST /api/shorten (lines 98-127)\<close>

text \<open>The instance bound to the handler's variable after a commit: the one added last.\<close>

fun added_UrlMapping :: "persistent list \<Rightarrow> UrlMapping option" where
  "added_UrlMapping ps = (case rev ps of Row_UrlMapping m # _ \<Rightarrow> Some m | _ \<Rightarrow> None)"

text \<open>
  The body of \<open>for attempt in range(5)\<close>, with the number of iterations left. Only a
  successful INSERT stores the time it reads, so one reading serves the request.
\<close>

fun attempt_loop :: "nat \<Rightarrow> string \<Rightarrow> datetime \<Rightarrow> rng \<Rightarrow> Session
    \<Rightarrow> (failure + ShortenResponse) \<times> rng \<times> Session" where
  "attempt_loop 0 orig now g db =
     (Inl (HTTPException 500 ''Failed to generate unique short code''), g, db)"
| "attempt_loop (Suc n) orig now g db =
     (let (code, g') = generate_short_code 7 g;
          db1 = add (New_UrlMapping orig code) db
      in case commit now db1 of
           Inr (ps, db2) \<Rightarrow>
             (case added_UrlMapping ps of
                None \<Rightarrow> (Inl (Unhandled InvalidRequestError), g', db2)
              | Some m \<Rightarrow>
                  (case refresh m db2 of
                     None \<Rightarrow> (Inl (Unhandled InvalidRequestError), g', db2)
                   | Some m' \<Rightarrow>
                       (Inr \<lparr>ShortenResponse.short_code = UrlMapping.short_code m',
                             original_url = UrlMapping.original_url m'\<rparr>, g', db2)))
         | Inl IntegrityError \<Rightarrow> attempt_loop n orig now g' (rollback db1)
         | Inl e \<Rightarrow> (Inl (Unhandled e), g', db1))"

definition create_short_url :: "ShortenRequest \<Rightarrow> datetime \<Rightarrow> rng \<Rightarrow> Session
    \<Rightarrow> (failure + ShortenResponse) \<times> rng \<times> Session" where
  "create_short_url payload now g db =
     attempt_loop 5 (ShortenRequest.original_url payload) now g db"

subsection \<open>GET /{short_code} (lines 129-156)\<close>

text \<open>
  The variable \<open>url\<close> of the source is \<open>m\<close> here (\<open>url\<close> names a field of the response).
  Its attributes are those of the row the query loaded: no row is ever updated or deleted,
  so reading them after the commit gives the same values. The answer is the call
  \<open>RedirectResponse(url=url.original_url, status_code=302)\<close>; the header it sends is
  \<open>location\<close> of it.
\<close>

definition redirect_short_code :: "string \<Rightarrow> Request \<Rightarrow> datetime \<Rightarrow> Session
    \<Rightarrow> (failure + RedirectResponse) \<times> Session" where
  "redirect_short_code code request now db =
     (case query_UrlMapping_first code db of
        None \<Rightarrow> (Inl (HTTPException 404 ''Short code not found''), db)
      | Some m \<Rightarrow>
          let client_host = (case client request of Some a \<Rightarrow> host a | None \<Rightarrow> ''unknown'');
              agent = headers_get (headers request) ''user-agent'' ''unknown'';
              click = New_Click (UrlMapping.id m) client_host agent;
              db1 = add click db
          in case commit now db1 of
               Inl e \<Rightarrow> (Inl (Unhandled e), db1)
             | Inr (ps, db2) \<Rightarrow>
                 (Inr \<lparr>url = UrlMapping.original_url m, status_code = 302\<rparr>, db2))"

subsection \<open>GET /api/stats/{short_code} (lines 158-179)\<close>

definition get_stats :: "string \<Rightarrow> Session \<Rightarrow> (failure + StatsResponse) \<times> Session" where
  "get_stats code db =
     (case query_UrlMapping_first code db of
        None \<Rightarrow> (Inl (HTTPException 404 ''Short code not found''), db)
      | Some m \<Rightarrow>
          let total = query_Click_count (UrlMapping.id m) db
          in (Inr \<lparr>StatsResponse.short_code = UrlMapping.short_code m,
                   original_url = UrlMapping.original_url m,
                   total_clicks = total,
                   created_at = UrlMapping.created_at m\<rparr>, db))"

section \<open>Notions used to state the properties\<close>

text \<open>The short codes in the table, in row order.\<close>

definition short_codes :: "database \<Rightarrow> string list" where
  "short_codes d = map UrlMapping.short_code (url_mappings d)"

text \<open>
  The code that attempt \<open>k\<close> (counted from 0) of one request generates: every attempt
  takes the next seven draws.
\<close>

definition candidate :: "rng \<Rightarrow> nat \<Rightarrow> string" where
  "candidate g k = fst (generate_short_code 7 (advance (7 * k) g))"

text \<open>The row that a successful INSERT of \<open>UrlMapping(original_url=u, short_code=c)\<close> writes.\<close>

definition mapping_row :: "datetime \<Rightarrow> string \<Rightarrow> string \<Rightarrow> database \<Rightarrow> UrlMapping" where
  "mapping_row now u c d =
     \<lparr>UrlMapping.id = next_rowid (map UrlMapping.id (url_mappings d)),
      original_url = u, short_code = c, created_at = now\<rparr>"

text \<open>
  Data for the examples: a generator whose every seven draws spell \<open>aB7xK9m\<close>, a
  request, and the database after that request on an empty database at time 100.
\<close>

definition example_rng :: rng where
  "example_rng i = [10, 37, 7, 33, 46, 9, 22] ! (i mod 7)"

definition example_payload :: ShortenRequest where
  "example_payload = \<lparr>ShortenRequest.original_url = ''https://example.com/a''\<rparr>"

definition example_database :: database where
  "example_database =
     \<lparr>url_mappings = [\<lparr>UrlMapping.id = 1, original_url = ''https://example.com/a'',
                        short_code = ''aB7xK9m'', created_at = 100\<rparr>],
      clicks = []\<rparr>"

text \<open>
  A generator that is not periodic: its first seven draws spell \<open>aB7xK9m\<close> again, the
  later ones are their own positions, so that the second attempt draws \<open>789abcd\<close>. And a
  request for a URL with a character that \<open>quote\<close> does not keep.
\<close>

definition retry_rng :: rng where
  "retry_rng i = (if i < 7 then [10, 37, 7, 33, 46, 9, 22] ! i else i)"

definition pipe_payload :: ShortenRequest where
  "pipe_payload = \<lparr>ShortenRequest.original_url = ''https://example.com/a|b''\<rparr>"

text \<open>
  The example database after that generator's request at time 200, and the database
  after shortening the second URL on an empty database.
\<close>

definition example_retried :: database where
  "example_retried =
     example_database\<lparr>url_mappings := url_mappings example_database @
       [\<lparr>UrlMapping.id = 2, original_url = ''https://example.com/a'',
         short_code = ''789abcd'', created_at = 200\<rparr>]\<rparr>"

definition pipe_database :: database where
  "pipe_database =
     \<lparr>url_mappings = [\<lparr>UrlMapping.id = 1, original_url = ''https://example.com/a|b'',
                        short_code = ''aB7xK9m'', created_at = 100\<rparr>],
      clicks = []\<rparr>"

text \<open>The row that a successful INSERT of \<open>Click(url_id=i, ip_address=a, user_agent=b)\<close> writes.\<close>

definition click_row :: "datetime \<Rightarrow> int \<Rightarrow> string \<Rightarrow> string \<Rightarrow> database \<Rightarrow> Click" where
  "click_row now i a b d =
     \<lparr>Click.id = next_rowid (map Click.id (clicks d)),
      url_id = i, clicked_at = now, ip_address = a, user_agent = b\<rparr>"

text \<open>
  The states the database can move to: any sequence of requests to the three endpoints,
  each with a session of its own, and of single committed INSERTs (the write of one
  attempt of a request that runs alongside). The storage takes one commit at a time.
\<close>

inductive reachable_from :: "database \<Rightarrow> database \<Rightarrow> bool" for d :: database where
  same: "reachable_from d d"
| shorten: "reachable_from d d1 \<Longrightarrow>
     create_short_url payload now g (SessionLocal d1) = (r, g', db') \<Longrightarrow>
     reachable_from d (bind db')"
| redirect: "reachable_from d d1 \<Longrightarrow>
     redirect_short_code code request now (SessionLocal d1) = (r', db') \<Longrightarrow>
     reachable_from d (bind db')"
| stats: "reachable_from d d1 \<Longrightarrow>
     get_stats code (SessionLocal d1) = (r'', db') \<Longrightarrow>
     reachable_from d (bind db')"
| insert: "reachable_from d d1 \<Longrightarrow>
     commit now (add x (SessionLocal d1)) = Inr (ps, db') \<Longrightarrow>
     reachable_from d (bind db')"

definition reachable :: "database \<Rightarrow> bool" where
  "reachable d = reachable_from empty_database d"

definition example_request :: Request where
  "example_request =
     \<lparr>client = Some \<lparr>host = ''203.0.113.7'', port = 51234\<rparr>,
      headers = [(''host'', ''127.0.0.1:8000''), (''user-agent'', ''curl/8.5.0'')]\<rparr>"

text \<open>The example database after one redirect of \<open>example_request\<close> at time 300.\<close>

definition example_clicked :: database where
  "example_clicked =
     example_database\<lparr>clicks :=
       [\<lparr>Click.id = 1, url_id = 1, clicked_at = 300,
         ip_address = ''203.0.113.7'', user_agent = ''curl/8.5.0''\<rparr>]\<rparr>"

text \<open>
  A run of read requests on one code, each with a session of its own: redirects (with
  their request and time) and statistics, in any order, and the answers in that order.
\<close>

datatype call = Redirect Request datetime | Stats

datatype answer = Redirected "failure + RedirectResponse" | Reported "failure + StatsResponse"

fun run_calls :: "string \<Rightarrow> call list \<Rightarrow> database \<Rightarrow> answer list \<times> database" where
  "run_calls code [] d = ([], d)"
| "run_calls code (Redirect request now # cs) d =
     (let (r, db') = redirect_short_code code request now (SessionLocal d);
          (rs, d') = run_calls code cs (bind db')
      in (Redirected r # rs, d'))"
| "run_calls code (Stats # cs) d =
     (let (r, db') = get_stats code (SessionLocal d);
          (rs, d') = run_calls code cs (bind db')
      in (Reported r # rs, d'))"

fun redirects :: "call list \<Rightarrow> nat" where
  "redirects [] = 0"
| "redirects (Redirect request now # cs) = Suc (redirects cs)"
| "redirects (Stats # cs) = redirects cs"

text \<open>A database with two mappings, the second of them visited once.\<close>

definition example_two :: database where
  "example_two =
     \<lparr>url_mappings =
        [\<lparr>UrlMapping.id = 1, original_url = ''https://example.com/a'',
          short_code = ''aB7xK9m'', created_at = 100\<rparr>,
         \<lparr>UrlMapping.id = 2, original_url = ''https://example.org/b'',
          short_code = ''0000000'', created_at = 150\<rparr>],
      clicks =
        [\<lparr>Click.id = 1, url_id = 2, clicked_at = 160,
          ip_address = ''unknown'', user_agent = ''unknown''\<rparr>]\<rparr>"

text \<open>A request whose \<open>user-agent\<close> header has 256 characters.\<close>

definition long_agent_request :: Request where
  "long_agent_request =
     \<lparr>client = Some \<lparr>host = ''203.0.113.7'', port = 51234\<rparr>,
      headers = [(''user-agent'', replicate 256 (CHR ''A''))]\<rparr>"

section \<open>The code generator\<close>

lemma BASE62_CHARS_eq:
  "BASE62_CHARS = ''0123456789abcdefghijklmnopqrstuvwxyzABCDEFGHIJKLMNOPQRSTUVWXYZ''"
  by (simp add: BASE62_CHARS_def digits_def ascii_letters_def ascii_lowercase_def
      ascii_uppercase_def)

lemma length_BASE62_CHARS: "length BASE62_CHARS = 62"
  by (simp add: BASE62_CHARS_eq)

lemma distinct_BASE62_CHARS: "distinct BASE62_CHARS"
  by (simp add: BASE62_CHARS_eq)

lemma advance_advance: "advance m (advance n g) = advance (n + m) g"
  by (simp add: advance_def fun_eq_iff ac_simps)

lemma advance_0: "advance 0 g = g"
  by (simp add: advance_def)

lemma choices_eq:
  "choices n g = (map (\<lambda>i. BASE62_CHARS ! (g i mod 62)) [0..<n], advance n g)"
proof (induction n arbitrary: g)
  case 0
  show ?case by (simp add: advance_0)
next
  case (Suc n)
  have shift: "map (\<lambda>i. BASE62_CHARS ! (advance 1 g i mod 62)) [0..<n]
      = map (\<lambda>i. BASE62_CHARS ! (g i mod 62)) [Suc 0..<Suc n]"
    by (simp add: map_Suc_upt [symmetric] advance_def del: upt_Suc)
  have "choices (Suc n) g
      = (BASE62_CHARS ! (g 0 mod 62) # map (\<lambda>i. BASE62_CHARS ! (advance 1 g i mod 62)) [0..<n],
         advance n (advance 1 g))"
    by (simp add: random_choice_def Suc.IH length_BASE62_CHARS)
  also have "\<dots> = (map (\<lambda>i. BASE62_CHARS ! (g i mod 62)) [0..<Suc n], advance (Suc n) g)"
    by (simp only: shift advance_advance) (simp add: upt_conv_Cons del: upt_Suc)
  finally show ?case .
qed

lemma length_choices: "length (fst (choices n g)) = n"
  by (simp add: choices_eq)

lemma set_choices: "set (fst (choices n g)) \<subseteq> set BASE62_CHARS"
  by (auto simp: choices_eq length_BASE62_CHARS)

section \<open>The storage layer and the retry loop\<close>

lemma mapping_row_sel [simp]:
  "UrlMapping.short_code (mapping_row now u c d) = c"
  "UrlMapping.original_url (mapping_row now u c d) = u"
  "UrlMapping.created_at (mapping_row now u c d) = now"
  "UrlMapping.id (mapping_row now u c d) = next_rowid (map UrlMapping.id (url_mappings d))"
  by (simp_all add: mapping_row_def)

lemma next_rowid_greater: "i \<in> set ids \<Longrightarrow> i < next_rowid ids"
proof -
  assume "i \<in> set ids"
  have "fold max ids 0 = Max (set (0 # ids))"
    by (simp only: Max.set_eq_fold)
  moreover have "i \<le> Max (set (0 # ids))"
    using \<open>i \<in> set ids\<close> by (intro Max_ge) auto
  ultimately show ?thesis by (simp add: next_rowid_def)
qed

lemma rollback_add: "new db = [] \<Longrightarrow> rollback (add x db) = db"
  by (simp add: rollback_def add_def)

lemma commit_conflict:
  "new db = [] \<Longrightarrow> c \<in> set (short_codes (bind db)) \<Longrightarrow>
   commit now (add (New_UrlMapping u c) db) = Inl IntegrityError"
  by (simp add: commit_def add_def short_codes_def)

lemma commit_fresh:
  "new db = [] \<Longrightarrow> c \<notin> set (short_codes (bind db)) \<Longrightarrow>
   commit now (add (New_UrlMapping u c) db) =
     Inr ([Row_UrlMapping (mapping_row now u c (bind db))],
          \<lparr>bind = (bind db)\<lparr>url_mappings := url_mappings (bind db) @ [mapping_row now u c (bind db)]\<rparr>,
           new = []\<rparr>)"
  by (simp add: commit_def add_def short_codes_def mapping_row_def Let_def)

lemma find_appended:
  "\<forall>x \<in> set xs. \<not> P x \<Longrightarrow> P y \<Longrightarrow> find P (xs @ [y]) = Some y"
  by (induction xs) auto

lemma refresh_mapping_row:
  "refresh (mapping_row now u c d)
     \<lparr>bind = d\<lparr>url_mappings := url_mappings d @ [mapping_row now u c d]\<rparr>, new = []\<rparr>
   = Some (mapping_row now u c d)"
proof -
  have "\<forall>r \<in> set (url_mappings d). UrlMapping.id r \<noteq> UrlMapping.id (mapping_row now u c d)"
    using next_rowid_greater [of _ "map UrlMapping.id (url_mappings d)"]
    by fastforce
  then show ?thesis
    by (simp add: refresh_def find_appended)
qed

lemma generate_short_code_7: 
  "generate_short_code 7 g = (candidate g 0, advance 7 g)"
  by (simp add: candidate_def generate_short_code_def choices_eq advance_0)

lemma candidate_advance: "candidate (advance 7 g) j = candidate g (Suc j)"
  by (simp add: candidate_def advance_advance)

lemma loop_exhausted:
  "new db = [] \<Longrightarrow> \<forall>j<n. candidate g j \<in> set (short_codes (bind db)) \<Longrightarrow>
   attempt_loop n u now g db =
     (Inl (HTTPException 500 ''Failed to generate unique short code''), advance (7 * n) g, db)"
proof (induction n arbitrary: g)
  case 0
  then show ?case by (simp add: advance_0)
next
  case (Suc n)
  have c0: "candidate g 0 \<in> set (short_codes (bind db))"
    using Suc.prems(2) by blast
  have rest: "\<forall>j<n. candidate (advance 7 g) j \<in> set (short_codes (bind db))"
    using Suc.prems(2) by (simp add: candidate_advance)
  have "attempt_loop (Suc n) u now g db = attempt_loop n u now (advance 7 g) db"
    using Suc.prems(1) c0
    by (simp add: generate_short_code_7 commit_conflict rollback_add)
  also have "\<dots> = (Inl (HTTPException 500 ''Failed to generate unique short code''),
      advance (7 * n) (advance 7 g), db)"
    using Suc.IH [OF Suc.prems(1) rest] .
  finally show ?case by (simp add: advance_advance)
qed

lemma loop_success:
  "new db = [] \<Longrightarrow> k < n \<Longrightarrow> \<forall>j<k. candidate g j \<in> set (short_codes (bind db)) \<Longrightarrow>
   candidate g k \<notin> set (short_codes (bind db)) \<Longrightarrow>
   attempt_loop n u now g db =
     (Inr \<lparr>ShortenResponse.short_code = candidate g k, original_url = u\<rparr>,
      advance (7 * Suc k) g,
      \<lparr>bind = (bind db)\<lparr>url_mappings :=
          url_mappings (bind db) @ [mapping_row now u (candidate g k) (bind db)]\<rparr>,
       new = []\<rparr>)"
proof (induction k arbitrary: n g)
  case 0
  then obtain n' where n: "n = Suc n'" by (cases n) auto
  show ?case
    using "0.prems"(1,4) unfolding n
    by (simp add: generate_short_code_7 commit_fresh refresh_mapping_row)
next
  case (Suc k)
  then obtain n' where n: "n = Suc n'" and kn: "k < n'" by (cases n) auto
  have c0: "candidate g 0 \<in> set (short_codes (bind db))"
    using Suc.prems(3) by blast
  have rest: "\<forall>j<k. candidate (advance 7 g) j \<in> set (short_codes (bind db))"
    using Suc.prems(3) by (simp add: candidate_advance)
  have last: "candidate (advance 7 g) k \<notin> set (short_codes (bind db))"
    using Suc.prems(4) by (simp add: candidate_advance)
  have "attempt_loop n u now g db = attempt_loop n' u now (advance 7 g) db"
    unfolding n using Suc.prems(1) c0
    by (simp add: generate_short_code_7 commit_conflict rollback_add)
  also note Suc.IH [OF Suc.prems(1) kn rest last]
  finally show ?case by (simp add: advance_advance candidate_advance)
qed

lemma SessionLocal_sel [simp]: "new (SessionLocal d) = []" "bind (SessionLocal d) = d"
  by (simp_all add: SessionLocal_def)

lemma create_short_url_cases:
  obtains (exhausted)
      "\<forall>j<5. candidate g j \<in> set (short_codes d)"
      "create_short_url payload now g (SessionLocal d) =
         (Inl (HTTPException 500 ''Failed to generate unique short code''),
          advance 35 g, SessionLocal d)"
  | (created) k where
      "k < 5" "\<forall>j<k. candidate g j \<in> set (short_codes d)"
      "candidate g k \<notin> set (short_codes d)"
      "create_short_url payload now g (SessionLocal d) =
         (Inr \<lparr>ShortenResponse.short_code = candidate g k,
               original_url = ShortenRequest.original_url payload\<rparr>,
          advance (7 * Suc k) g,
          SessionLocal (d\<lparr>url_mappings := url_mappings d @
             [mapping_row now (ShortenRequest.original_url payload) (candidate g k) d]\<rparr>))"
proof (cases "\<forall>j<5. candidate g j \<in> set (short_codes d)")
  case True
  have "create_short_url payload now g (SessionLocal d) =
         (Inl (HTTPException 500 ''Failed to generate unique short code''),
          advance 35 g, SessionLocal d)"
    unfolding create_short_url_def
    using loop_exhausted [where db = "SessionLocal d" and n = 5 and g = g and now = now] True
    by simp
  with True show ?thesis by (rule exhausted)
next
  case False
  then have "\<exists>k. k < 5 \<and> candidate g k \<notin> set (short_codes d)" by blast
  then obtain k where k: "k < 5" "candidate g k \<notin> set (short_codes d)"
    and least: "\<forall>j<k. \<not> (j < 5 \<and> candidate g j \<notin> set (short_codes d))"
    unfolding exists_least_iff [of "\<lambda>k. k < 5 \<and> candidate g k \<notin> set (short_codes d)"]
    by blast
  from least k(1) have before: "\<forall>j<k. candidate g j \<in> set (short_codes d)"
    by auto
  have "create_short_url payload now g (SessionLocal d) =
         (Inr \<lparr>ShortenResponse.short_code = candidate g k,
               original_url = ShortenRequest.original_url payload\<rparr>,
          advance (7 * Suc k) g,
          SessionLocal (d\<lparr>url_mappings := url_mappings d @
             [mapping_row now (ShortenRequest.original_url payload) (candidate g k) d]\<rparr>))"
    unfolding create_short_url_def
    using loop_success [where db = "SessionLocal d" and k = k and n = 5 and g = g and now = now
        and u = "ShortenRequest.original_url payload"] k before
    by (simp add: SessionLocal_def)
  with k(1) before k(2) show ?thesis by (rule created)
qed

lemma length_candidate: "length (candidate g k) = 7"
  by (simp add: candidate_def generate_short_code_def length_choices)

lemma set_candidate: "set (candidate g k) \<subseteq> set BASE62_CHARS"
  by (simp add: candidate_def generate_short_code_def set_choices)

lemma advance_example_rng: "advance (7 * k) example_rng = example_rng"
  by (simp add: advance_def example_rng_def fun_eq_iff)

lemma candidate_example_rng: "candidate example_rng k = ''aB7xK9m''"
  by (simp add: candidate_def advance_example_rng generate_short_code_def choices_eq
      example_rng_def BASE62_CHARS_eq upt_rec [of _ 7] upt_rec [of _ "Suc _"])

section \<open>Claims about the code generator\<close>

text \<open>
  C6. For a length \<open>n \<ge> 0\<close>, \<open>generate_short_code\<close> returns exactly \<open>n\<close> characters, each
  one of the 62 characters \<open>0-9\<close>, \<open>a-z\<close>, \<open>A-Z\<close> of \<open>BASE62_CHARS\<close>; and the code in
  every successful answer of \<open>create_short_url\<close> has exactly 7 characters of that
  alphabet.
\<close>

theorem generate_short_code_alphabet:
  assumes "0 \<le> n"
  shows "int (length (fst (generate_short_code n g))) = n
    \<and> set (fst (generate_short_code n g)) \<subseteq> set BASE62_CHARS
    \<and> BASE62_CHARS = ''0123456789abcdefghijklmnopqrstuvwxyzABCDEFGHIJKLMNOPQRSTUVWXYZ''
    \<and> card (set BASE62_CHARS) = 62
    \<and> (\<forall>resp g' db'.
          create_short_url payload now g (SessionLocal d) = (Inr resp, g', db') \<longrightarrow>
          length (ShortenResponse.short_code resp) = 7
          \<and> set (ShortenResponse.short_code resp) \<subseteq> set BASE62_CHARS)"
proof -
  have len: "int (length (fst (generate_short_code n g))) = n"
    using assms by (simp add: generate_short_code_def length_choices)
  have chars: "set (fst (generate_short_code n g)) \<subseteq> set BASE62_CHARS"
    by (simp add: generate_short_code_def set_choices)
  have card: "card (set BASE62_CHARS) = 62"
    using distinct_card [OF distinct_BASE62_CHARS] by (simp add: length_BASE62_CHARS)
  have answer: "length (ShortenResponse.short_code resp) = 7
      \<and> set (ShortenResponse.short_code resp) \<subseteq> set BASE62_CHARS"
    if "create_short_url payload now g (SessionLocal d) = (Inr resp, g', db')"
    for resp g' db'
  proof (cases rule: create_short_url_cases [of g d payload now])
    case exhausted
    with that show ?thesis by simp
  next
    case (created k)
    with that have "ShortenResponse.short_code resp = candidate g k" by auto
    then show ?thesis by (simp add: length_candidate set_candidate)
  qed
  from len chars BASE62_CHARS_eq card answer show ?thesis by blast
qed

theorem generate_short_code_alphabet_witness:
  "generate_short_code 7 example_rng = (''aB7xK9m'', advance 7 example_rng)
   \<and> int (length ''aB7xK9m'') = 7
   \<and> set ''aB7xK9m'' \<subseteq> set BASE62_CHARS
   \<and> fst (create_short_url example_payload 100 example_rng (SessionLocal empty_database))
       = Inr \<lparr>ShortenResponse.short_code = ''aB7xK9m'', original_url = ''https://example.com/a''\<rparr>"
proof -
  have gen: "generate_short_code 7 example_rng = (''aB7xK9m'', advance 7 example_rng)"
    by (simp add: generate_short_code_7 candidate_example_rng)
  have run: "create_short_url example_payload 100 example_rng (SessionLocal empty_database)
      = (Inr \<lparr>ShortenResponse.short_code = ''aB7xK9m'', original_url = ''https://example.com/a''\<rparr>,
         advance 7 example_rng,
         SessionLocal (empty_database\<lparr>url_mappings := url_mappings empty_database @
           [mapping_row 100 ''https://example.com/a'' ''aB7xK9m'' empty_database]\<rparr>))"
    using loop_success [where db = "SessionLocal empty_database" and k = 0 and n = 5
        and g = example_rng and now = 100 and u = "''https://example.com/a''"]
    by (simp add: create_short_url_def candidate_example_rng example_payload_def
        short_codes_def empty_database_def SessionLocal_def)
  from generate_short_code_alphabet [of 7 example_rng example_payload 100 empty_database]
  show ?thesis
    unfolding gen run by simp
qed

section \<open>Queries and the click INSERT\<close>

lemma short_codes_append [simp]:
  "short_codes (d\<lparr>url_mappings := url_mappings d @ [m]\<rparr>)
     = short_codes d @ [UrlMapping.short_code m]"
  by (simp add: short_codes_def)

lemma short_codes_clicks [simp]: "short_codes (d\<lparr>clicks := cs\<rparr>) = short_codes d"
  by (simp add: short_codes_def)

lemma commit_click:
  "new db = [] \<Longrightarrow>
   commit now (add (New_Click i a b) db) =
     Inr ([Row_Click (click_row now i a b (bind db))],
          \<lparr>bind = (bind db)\<lparr>clicks := clicks (bind db) @ [click_row now i a b (bind db)]\<rparr>,
           new = []\<rparr>)"
  by (simp add: commit_def add_def click_row_def Let_def)

lemma find_None_short_code:
  "code \<notin> set (short_codes d) \<Longrightarrow>
   find (\<lambda>m. UrlMapping.short_code m = code) (url_mappings d) = None"
  by (auto simp: find_None_iff short_codes_def)

lemma find_unique:
  "distinct (map f xs) \<Longrightarrow> m \<in> set xs \<Longrightarrow> find (\<lambda>x. f x = f m) xs = Some m"
  by (induction xs) (auto simp: rev_image_eqI)

lemma find_Some_short_code:
  "distinct (short_codes d) \<Longrightarrow> m \<in> set (url_mappings d) \<Longrightarrow>
   find (\<lambda>r. UrlMapping.short_code r = UrlMapping.short_code m) (url_mappings d) = Some m"
  unfolding short_codes_def by (rule find_unique)

lemma find_SomeD:
  "find P xs = Some x \<Longrightarrow> x \<in> set xs \<and> P x"
  by (induction xs) (auto split: if_splits)

lemma redirect_absent:
  "code \<notin> set (short_codes d) \<Longrightarrow>
   redirect_short_code code request now (SessionLocal d)
     = (Inl (HTTPException 404 ''Short code not found''), SessionLocal d)"
  by (simp add: redirect_short_code_def query_UrlMapping_first_def find_None_short_code)

lemma redirect_found:
  "find (\<lambda>r. UrlMapping.short_code r = code) (url_mappings d) = Some m \<Longrightarrow>
   redirect_short_code code request now (SessionLocal d)
     = (Inr \<lparr>url = UrlMapping.original_url m, status_code = 302\<rparr>,
        SessionLocal (d\<lparr>clicks := clicks d @
          [click_row now (UrlMapping.id m)
             (case client request of Some a \<Rightarrow> host a | None \<Rightarrow> ''unknown'')
             (case map_of (headers request) ''user-agent'' of None \<Rightarrow> ''unknown'' | Some v \<Rightarrow> v)
             d]\<rparr>))"
  by (simp add: redirect_short_code_def query_UrlMapping_first_def commit_click headers_get_def
      SessionLocal_def Let_def)

lemma stats_absent:
  "code \<notin> set (short_codes d) \<Longrightarrow>
   get_stats code (SessionLocal d)
     = (Inl (HTTPException 404 ''Short code not found''), SessionLocal d)"
  by (simp add: get_stats_def query_UrlMapping_first_def find_None_short_code)

lemma stats_found:
  "find (\<lambda>r. UrlMapping.short_code r = code) (url_mappings d) = Some m \<Longrightarrow>
   get_stats code (SessionLocal d)
     = (Inr \<lparr>StatsResponse.short_code = code,
              original_url = UrlMapping.original_url m,
              total_clicks = int (length (filter (\<lambda>c. Click.url_id c = UrlMapping.id m) (clicks d))),
              created_at = UrlMapping.created_at m\<rparr>, SessionLocal d)"
  by (auto simp: get_stats_def query_UrlMapping_first_def query_Click_count_def Let_def
      dest: find_SomeD)

section \<open>What one operation changes\<close>

lemma shorten_effect:
  assumes "create_short_url payload now g (SessionLocal d) = (r, g', db')"
  shows "bind db' = d \<or>
    (\<exists>c. c \<notin> set (short_codes d) \<and>
       bind db' = d\<lparr>url_mappings := url_mappings d @
         [mapping_row now (ShortenRequest.original_url payload) c d]\<rparr>)"
proof (cases rule: create_short_url_cases [of g d payload now])
  case exhausted
  with assms have "db' = SessionLocal d" by simp
  then show ?thesis by simp
next
  case (created k)
  with assms have "bind db' = d\<lparr>url_mappings := url_mappings d @
      [mapping_row now (ShortenRequest.original_url payload) (candidate g k) d]\<rparr>"
    by auto
  with created(3) show ?thesis by blast
qed

lemma redirect_effect:
  assumes "redirect_short_code code request now (SessionLocal d) = (r, db')"
  shows "bind db' = d \<or> (\<exists>i a b. bind db' = d\<lparr>clicks := clicks d @ [click_row now i a b d]\<rparr>)"
proof (cases "find (\<lambda>r. UrlMapping.short_code r = code) (url_mappings d)")
  case None
  then have "code \<notin> set (short_codes d)"
    by (auto simp: find_None_iff short_codes_def)
  with assms have "db' = SessionLocal d" by (simp add: redirect_absent)
  then show ?thesis by simp
next
  case (Some m)
  from assms have "db' = SessionLocal (d\<lparr>clicks := clicks d @
      [click_row now (UrlMapping.id m)
         (case client request of Some a \<Rightarrow> host a | None \<Rightarrow> ''unknown'')
         (case map_of (headers request) ''user-agent'' of None \<Rightarrow> ''unknown'' | Some v \<Rightarrow> v)
         d]\<rparr>)"
    unfolding redirect_found [OF Some] by simp
  then show ?thesis by auto
qed

lemma stats_effect:
  "get_stats code (SessionLocal d) = (r, db') \<Longrightarrow> db' = SessionLocal d"
  by (auto simp: get_stats_def Let_def split: option.splits)

lemma insert_effect:
  assumes "commit now (add x (SessionLocal d)) = Inr (ps, db')"
  shows "(\<exists>u c. c \<notin> set (short_codes d) \<and>
            bind db' = d\<lparr>url_mappings := url_mappings d @ [mapping_row now u c d]\<rparr>)
       \<or> (\<exists>i a b. bind db' = d\<lparr>clicks := clicks d @ [click_row now i a b d]\<rparr>)"
proof (cases x)
  case (New_UrlMapping u c)
  show ?thesis
  proof (cases "c \<in> set (short_codes d)")
    case True
    with assms New_UrlMapping show ?thesis by (simp add: commit_conflict)
  next
    case False
    with assms New_UrlMapping
    have "bind db' = d\<lparr>url_mappings := url_mappings d @ [mapping_row now u c d]\<rparr>"
      by (auto simp: commit_fresh)
    with False show ?thesis by blast
  qed
next
  case (New_Click i a b)
  with assms have "bind db' = d\<lparr>clicks := clicks d @ [click_row now i a b d]\<rparr>"
    by (auto simp: commit_click)
  then show ?thesis by blast
qed

lemma reachable_from_invariant:
  assumes "reachable_from d d'" and "P d"
    and mapping: "\<And>d now u c. P d \<Longrightarrow> c \<notin> set (short_codes d) \<Longrightarrow>
        P (d\<lparr>url_mappings := url_mappings d @ [mapping_row now u c d]\<rparr>)"
    and click: "\<And>d now i a b. P d \<Longrightarrow> P (d\<lparr>clicks := clicks d @ [click_row now i a b d]\<rparr>)"
  shows "P d'"
  using assms(1)
proof (induction rule: reachable_from.induct)
  case same
  show ?case by (rule assms(2))
next
  case (shorten d1 payload now g r g' db')
  from shorten_effect [OF shorten.hyps(2)] shorten.IH show ?case
    by (auto intro: mapping)
next
  case (redirect d1 code request now r' db')
  from redirect_effect [OF redirect.hyps(2)] redirect.IH show ?case
    by (auto intro: click)
next
  case (stats d1 code r'' db')
  from stats_effect [OF stats.hyps(2)] stats.IH show ?case by simp
next
  case (insert d1 now x ps db')
  from insert_effect [OF insert.hyps(2)] insert.IH show ?case
    by (auto intro: mapping click)
qed

lemma reachable_from_distinct_codes:
  "reachable_from d d' \<Longrightarrow> distinct (short_codes d) \<Longrightarrow> distinct (short_codes d')"
  by (erule reachable_from_invariant [where P = "\<lambda>d. distinct (short_codes d)"]) simp_all

lemma reachable_from_extends:
  "reachable_from d d' \<Longrightarrow> \<exists>ys. url_mappings d' = url_mappings d @ ys"
  by (erule reachable_from_invariant [where P = "\<lambda>x. \<exists>ys. url_mappings x = url_mappings d @ ys"])
    auto

lemma distinct_ids_append:
  "distinct (map UrlMapping.id (url_mappings d)) \<Longrightarrow>
   distinct (map UrlMapping.id (url_mappings d @ [mapping_row now u c d]))"
  using next_rowid_greater [of "next_rowid (map UrlMapping.id (url_mappings d))"
      "map UrlMapping.id (url_mappings d)"]
  by auto

lemma reachable_from_distinct_ids:
  "reachable_from d d' \<Longrightarrow> distinct (map UrlMapping.id (url_mappings d)) \<Longrightarrow>
   distinct (map UrlMapping.id (url_mappings d'))"
  by (erule reachable_from_invariant
      [where P = "\<lambda>d. distinct (map UrlMapping.id (url_mappings d))"])
    (simp_all add: distinct_ids_append del: distinct_append map_append)

lemma find_append_Some: "find P xs = Some x \<Longrightarrow> find P (xs @ ys) = Some x"
  by (induction xs) (auto split: if_splits)

section \<open>The example data\<close>

lemma example_shorten:
  "create_short_url example_payload 100 example_rng (SessionLocal empty_database)
     = (Inr \<lparr>ShortenResponse.short_code = ''aB7xK9m'', original_url = ''https://example.com/a''\<rparr>,
        advance 7 example_rng, SessionLocal example_database)"
  using loop_success [where db = "SessionLocal empty_database" and k = 0 and n = 5
      and g = example_rng and now = 100 and u = "''https://example.com/a''"]
  by (simp add: create_short_url_def candidate_example_rng example_payload_def
      short_codes_def empty_database_def example_database_def SessionLocal_def
      mapping_row_def next_rowid_def)

lemma example_reachable: "reachable example_database"
  unfolding reachable_def
  using reachable_from.shorten [OF reachable_from.same example_shorten] by simp

lemma example_exhausted:
  "create_short_url example_payload 200 example_rng (SessionLocal example_database)
     = (Inl (HTTPException 500 ''Failed to generate unique short code''),
        advance 35 example_rng, SessionLocal example_database)"
  using loop_exhausted [where db = "SessionLocal example_database" and n = 5
      and g = example_rng and now = 200]
  by (simp add: create_short_url_def candidate_example_rng short_codes_def example_database_def)

section \<open>Claims about the rows of the mapping table\<close>

text \<open>
  C5. A call of \<open>create_short_url\<close> on a fresh session either answers and leaves the
  table with exactly one more row, the one of the answer, or fails and leaves the database
  as it was; the clicks are untouched and nothing is left pending. An attempt whose code
  is taken raises \<open>IntegrityError\<close>, and the rollback puts the session back as it was
  before the attempt.
\<close>

theorem create_short_url_rows:
  assumes "create_short_url payload now g (SessionLocal d) = (r, g', db')"
  shows "new db' = [] \<and> clicks (bind db') = clicks d
    \<and> (case r of
          Inr resp \<Rightarrow>
            (\<exists>row. url_mappings (bind db') = url_mappings d @ [row]
               \<and> UrlMapping.short_code row = ShortenResponse.short_code resp
               \<and> UrlMapping.original_url row = ShortenRequest.original_url payload
               \<and> UrlMapping.created_at row = now
               \<and> UrlMapping.short_code row \<notin> set (short_codes d))
        | Inl e \<Rightarrow> bind db' = d \<and> e = HTTPException 500 ''Failed to generate unique short code'')
    \<and> (\<forall>u c. c \<in> set (short_codes d) \<longrightarrow>
          commit now (add (New_UrlMapping u c) (SessionLocal d)) = Inl IntegrityError
          \<and> rollback (add (New_UrlMapping u c) (SessionLocal d)) = SessionLocal d)"
proof -
  have undone: "commit now (add (New_UrlMapping u c) (SessionLocal d)) = Inl IntegrityError
      \<and> rollback (add (New_UrlMapping u c) (SessionLocal d)) = SessionLocal d"
    if "c \<in> set (short_codes d)" for u c
    using that by (simp add: commit_conflict rollback_add)
  show ?thesis
  proof (cases rule: create_short_url_cases [of g d payload now])
    case exhausted
    with assms have "r = Inl (HTTPException 500 ''Failed to generate unique short code'')"
      and "db' = SessionLocal d" by simp_all
    with undone show ?thesis by simp
  next
    case (created k)
    with assms have "r = Inr \<lparr>ShortenResponse.short_code = candidate g k,
        original_url = ShortenRequest.original_url payload\<rparr>"
      and "db' = SessionLocal (d\<lparr>url_mappings := url_mappings d @
             [mapping_row now (ShortenRequest.original_url payload) (candidate g k) d]\<rparr>)"
      by simp_all
    with undone created(3) show ?thesis by simp
  qed
qed

theorem create_short_url_rows_witness:
  "create_short_url example_payload 100 example_rng (SessionLocal empty_database)
     = (Inr \<lparr>ShortenResponse.short_code = ''aB7xK9m'', original_url = ''https://example.com/a''\<rparr>,
        advance 7 example_rng, SessionLocal example_database)
   \<and> (\<exists>row. url_mappings example_database = url_mappings empty_database @ [row]
         \<and> UrlMapping.short_code row = ''aB7xK9m'')
   \<and> clicks example_database = clicks empty_database
   \<and> create_short_url example_payload 200 example_rng (SessionLocal example_database)
     = (Inl (HTTPException 500 ''Failed to generate unique short code''),
        advance 35 example_rng, SessionLocal example_database)
   \<and> ''aB7xK9m'' \<in> set (short_codes example_database)
   \<and> rollback (add (New_UrlMapping ''https://example.com/a'' ''aB7xK9m'')
        (SessionLocal example_database)) = SessionLocal example_database"
proof -
  have taken: "''aB7xK9m'' \<in> set (short_codes example_database)"
    by (simp add: short_codes_def example_database_def)
  from create_short_url_rows [OF example_shorten] create_short_url_rows [OF example_exhausted]
    example_shorten example_exhausted taken
  show ?thesis
    by (simp add: example_payload_def) blast
qed

section \<open>Uniqueness of the short codes\<close>

text \<open>
  C2. In every reachable state of the database the short codes of the rows are pairwise
  different, and each of the three operations keeps them so. The uniqueness is decided by
  the INSERT itself, with no query before it: once a commit of a code has succeeded, every
  later commit of the same code, whatever ran in between, raises \<open>IntegrityError\<close>; so of
  two requests that try the same code, in whichever order the storage takes their
  commits, at most one succeeds.
\<close>

theorem short_code_unique:
  "(reachable d \<longrightarrow> distinct (short_codes d))
   \<and> (distinct (short_codes d) \<longrightarrow>
        distinct (short_codes (bind (snd (snd (create_short_url payload now g (SessionLocal d))))))
        \<and> distinct (short_codes (bind (snd (redirect_short_code code request now (SessionLocal d)))))
        \<and> distinct (short_codes (bind (snd (get_stats code (SessionLocal d))))))
   \<and> (commit now1 (add (New_UrlMapping u1 c) (SessionLocal d)) = Inr (ps, db1)
        \<and> reachable_from (bind db1) d2 \<longrightarrow>
        commit now2 (add (New_UrlMapping u2 c) (SessionLocal d2)) = Inl IntegrityError)"
proof (intro conjI impI)
  assume "reachable d"
  then show "distinct (short_codes d)"
    unfolding reachable_def
    by (rule reachable_from_distinct_codes) (simp add: short_codes_def empty_database_def)
next
  assume inv: "distinct (short_codes d)"
  obtain r g' db' where run: "create_short_url payload now g (SessionLocal d) = (r, g', db')"
    using prod_cases3 by blast
  from reachable_from.shorten [OF reachable_from.same run]
  have "distinct (short_codes (bind db'))"
    using inv by (rule reachable_from_distinct_codes)
  then show "distinct (short_codes (bind (snd (snd (create_short_url payload now g (SessionLocal d))))))"
    by (simp add: run)
next
  assume inv: "distinct (short_codes d)"
  obtain r db' where run: "redirect_short_code code request now (SessionLocal d) = (r, db')"
    by (cases "redirect_short_code code request now (SessionLocal d)")
  from reachable_from.redirect [OF reachable_from.same run]
  have "distinct (short_codes (bind db'))"
    using inv by (rule reachable_from_distinct_codes)
  then show "distinct (short_codes (bind (snd (redirect_short_code code request now (SessionLocal d)))))"
    by (simp add: run)
next
  assume inv: "distinct (short_codes d)"
  obtain r db' where run: "get_stats code (SessionLocal d) = (r, db')"
    by (cases "get_stats code (SessionLocal d)")
  from reachable_from.stats [OF reachable_from.same run]
  have "distinct (short_codes (bind db'))"
    using inv by (rule reachable_from_distinct_codes)
  then show "distinct (short_codes (bind (snd (get_stats code (SessionLocal d)))))"
    by (simp add: run)
next
  assume both: "commit now1 (add (New_UrlMapping u1 c) (SessionLocal d)) = Inr (ps, db1)
    \<and> reachable_from (bind db1) d2"
  have "c \<in> set (short_codes (bind db1))"
  proof (cases "c \<in> set (short_codes d)")
    case True
    with both show ?thesis by (simp add: commit_conflict)
  next
    case False
    with both show ?thesis by (auto simp: commit_fresh)
  qed
  moreover obtain ys where "url_mappings d2 = url_mappings (bind db1) @ ys"
    using reachable_from_extends both by blast
  ultimately have "c \<in> set (short_codes d2)"
    by (simp add: short_codes_def)
  then show "commit now2 (add (New_UrlMapping u2 c) (SessionLocal d2)) = Inl IntegrityError"
    by (simp add: commit_conflict)
qed

theorem short_code_unique_witness:
  "reachable example_database \<and> distinct (short_codes example_database)
   \<and> commit 100 (add (New_UrlMapping ''https://example.com/a'' ''aB7xK9m'')
        (SessionLocal empty_database))
      = Inr ([Row_UrlMapping (mapping_row 100 ''https://example.com/a'' ''aB7xK9m'' empty_database)],
             SessionLocal example_database)
   \<and> reachable_from example_database example_database
   \<and> commit 200 (add (New_UrlMapping ''https://example.com/b'' ''aB7xK9m'')
        (SessionLocal example_database)) = Inl IntegrityError
   \<and> distinct (short_codes (bind (snd (snd
        (create_short_url example_payload 200 example_rng (SessionLocal example_database))))))"
proof -
  have first: "commit 100 (add (New_UrlMapping ''https://example.com/a'' ''aB7xK9m'')
        (SessionLocal empty_database))
      = Inr ([Row_UrlMapping (mapping_row 100 ''https://example.com/a'' ''aB7xK9m'' empty_database)],
             SessionLocal example_database)"
    by (simp add: commit_fresh short_codes_def empty_database_def example_database_def
        SessionLocal_def mapping_row_def next_rowid_def)
  note inst = short_code_unique [where d = example_database and payload = example_payload
      and now = 200 and g = example_rng]
  have "distinct (short_codes example_database)"
    using inst example_reachable by blast
  moreover have "commit 200 (add (New_UrlMapping ''https://example.com/b'' ''aB7xK9m'')
        (SessionLocal example_database)) = Inl IntegrityError"
    using short_code_unique [where d = empty_database and ?d2.0 = example_database
        and ?now1.0 = 100 and ?now2.0 = 200 and c = "''aB7xK9m''"
        and ?u1.0 = "''https://example.com/a''" and ?u2.0 = "''https://example.com/b''"
        and ?db1.0 = "SessionLocal example_database"
        and ps = "[Row_UrlMapping
            (mapping_row 100 ''https://example.com/a'' ''aB7xK9m'' empty_database)]"]
      first reachable_from.same [of example_database]
    by simp
  moreover have "distinct (short_codes (bind (snd (snd
        (create_short_url example_payload 200 example_rng (SessionLocal example_database))))))"
    using inst calculation(1) by blast
  ultimately show ?thesis
    using example_reachable first reachable_from.same [of example_database] by simp
qed

section \<open>Claims about the redirect and the statistics\<close>

lemma click_row_sel [simp]:
  "Click.url_id (click_row now i a b d) = i"
  "Click.ip_address (click_row now i a b d) = a"
  "Click.user_agent (click_row now i a b d) = b"
  "Click.clicked_at (click_row now i a b d) = now"
  "Click.id (click_row now i a b d) = next_rowid (map Click.id (clicks d))"
  by (simp_all add: click_row_def)

lemma example_redirect:
  "redirect_short_code ''aB7xK9m'' example_request 300 (SessionLocal example_database)
     = (Inr \<lparr>url = ''https://example.com/a'', status_code = 302\<rparr>, SessionLocal example_clicked)"
  by (simp add: redirect_short_code_def query_UrlMapping_first_def commit_click headers_get_def
      SessionLocal_def Let_def example_database_def example_request_def example_clicked_def
      click_row_def next_rowid_def)

text \<open>
  C3. For every string \<open>code\<close>: when no row has that code, \<open>redirect_short_code\<close> raises
  \<open>HTTPException(status_code=404)\<close> and the database is unchanged. When the row \<open>m\<close> has
  it, the answer is a 302 to \<open>m\<close>'s \<open>original_url\<close>, and the database has exactly one more
  click, which refers to \<open>m\<close>'s id and carries the client's host and the \<open>user-agent\<close>
  header, each replaced by \<open>unknown\<close> when the request has none. The handler fails in no
  other way than the 404.
\<close>

theorem redirect_short_code_result:
  "(code \<notin> set (short_codes d) \<longrightarrow>
      redirect_short_code code request now (SessionLocal d)
        = (Inl (HTTPException 404 ''Short code not found''), SessionLocal d))
   \<and> (distinct (short_codes d) \<and> m \<in> set (url_mappings d) \<and> UrlMapping.short_code m = code \<longrightarrow>
      (\<exists>click.
         redirect_short_code code request now (SessionLocal d)
           = (Inr \<lparr>url = UrlMapping.original_url m, status_code = 302\<rparr>,
              SessionLocal (d\<lparr>clicks := clicks d @ [click]\<rparr>))
         \<and> Click.url_id click = UrlMapping.id m
         \<and> Click.ip_address click
             = (case client request of Some a \<Rightarrow> host a | None \<Rightarrow> ''unknown'')
         \<and> Click.user_agent click
             = (case map_of (headers request) ''user-agent'' of Some v \<Rightarrow> v | None \<Rightarrow> ''unknown'')
         \<and> Click.clicked_at click = now))
   \<and> (\<forall>e. fst (redirect_short_code code request now (SessionLocal d)) = Inl e \<longrightarrow>
         e = HTTPException 404 ''Short code not found'' \<and> status_of e = 404
         \<and> code \<notin> set (short_codes d))"
proof (intro conjI impI allI)
  assume "code \<notin> set (short_codes d)"
  then show "redirect_short_code code request now (SessionLocal d)
      = (Inl (HTTPException 404 ''Short code not found''), SessionLocal d)"
    by (rule redirect_absent)
next
  assume "distinct (short_codes d) \<and> m \<in> set (url_mappings d) \<and> UrlMapping.short_code m = code"
  then have "find (\<lambda>r. UrlMapping.short_code r = code) (url_mappings d) = Some m"
    using find_Some_short_code [of d m] by auto
  from redirect_found [OF this, of request now]
  show "\<exists>click.
         redirect_short_code code request now (SessionLocal d)
           = (Inr \<lparr>url = UrlMapping.original_url m, status_code = 302\<rparr>,
              SessionLocal (d\<lparr>clicks := clicks d @ [click]\<rparr>))
         \<and> Click.url_id click = UrlMapping.id m
         \<and> Click.ip_address click
             = (case client request of Some a \<Rightarrow> host a | None \<Rightarrow> ''unknown'')
         \<and> Click.user_agent click
             = (case map_of (headers request) ''user-agent'' of Some v \<Rightarrow> v | None \<Rightarrow> ''unknown'')
         \<and> Click.clicked_at click = now"
    by (intro exI [of _ "click_row now (UrlMapping.id m)
             (case client request of Some a \<Rightarrow> host a | None \<Rightarrow> ''unknown'')
             (case map_of (headers request) ''user-agent'' of None \<Rightarrow> ''unknown'' | Some v \<Rightarrow> v)
             d"]) (simp split: option.splits)
next
  fix e
  assume failed: "fst (redirect_short_code code request now (SessionLocal d)) = Inl e"
  show "e = HTTPException 404 ''Short code not found''"
    and "status_of e = 404" and "code \<notin> set (short_codes d)"
  proof -
    have absent: "find (\<lambda>r. UrlMapping.short_code r = code) (url_mappings d) = None"
    proof (cases "find (\<lambda>r. UrlMapping.short_code r = code) (url_mappings d)")
      case None
      then show ?thesis .
    next
      case (Some m')
      from failed show ?thesis unfolding redirect_found [OF Some] by simp
    qed
    then show notin: "code \<notin> set (short_codes d)"
      by (auto simp: find_None_iff short_codes_def)
    from failed show e: "e = HTTPException 404 ''Short code not found''"
      unfolding redirect_absent [OF notin] by simp
    then show "status_of e = 404" by simp
  qed
qed

theorem redirect_short_code_result_witness:
  "''zzzzzzz'' \<notin> set (short_codes example_database)
   \<and> redirect_short_code ''zzzzzzz'' example_request 300 (SessionLocal example_database)
       = (Inl (HTTPException 404 ''Short code not found''), SessionLocal example_database)
   \<and> distinct (short_codes example_database)
   \<and> redirect_short_code ''aB7xK9m'' example_request 300 (SessionLocal example_database)
       = (Inr \<lparr>url = ''https://example.com/a'', status_code = 302\<rparr>, SessionLocal example_clicked)
   \<and> clicks example_clicked = clicks example_database @
       [\<lparr>Click.id = 1, url_id = 1, clicked_at = 300,
         ip_address = ''203.0.113.7'', user_agent = ''curl/8.5.0''\<rparr>]
   \<and> fst (redirect_short_code [] \<lparr>client = None, headers = []\<rparr> 300 (SessionLocal example_database))
       = Inl (HTTPException 404 ''Short code not found'')"
proof -
  have absent: "''zzzzzzz'' \<notin> set (short_codes example_database)"
    and empty: "[] \<notin> set (short_codes example_database)"
    and inv: "distinct (short_codes example_database)"
    by (simp_all add: short_codes_def example_database_def)
  from redirect_short_code_result [of "''zzzzzzz''" example_database example_request 300] absent
  have "redirect_short_code ''zzzzzzz'' example_request 300 (SessionLocal example_database)
       = (Inl (HTTPException 404 ''Short code not found''), SessionLocal example_database)"
    by blast
  moreover
  from redirect_short_code_result [of "[]" example_database "\<lparr>client = None, headers = []\<rparr>" 300]
    empty
  have "redirect_short_code [] \<lparr>client = None, headers = []\<rparr> 300 (SessionLocal example_database)
       = (Inl (HTTPException 404 ''Short code not found''), SessionLocal example_database)"
    by blast
  then
  have "fst (redirect_short_code [] \<lparr>client = None, headers = []\<rparr> 300 (SessionLocal example_database))
       = Inl (HTTPException 404 ''Short code not found'')"
    by (simp only: fst_conv)
  moreover have "clicks example_clicked = clicks example_database @
       [\<lparr>Click.id = 1, url_id = 1, clicked_at = 300,
         ip_address = ''203.0.113.7'', user_agent = ''curl/8.5.0''\<rparr>]"
    by (simp add: example_clicked_def example_database_def)
  ultimately show ?thesis
    using absent inv example_redirect by (intro conjI)
qed

text \<open>
  C7. For every string \<open>code\<close>: when no row has that code, \<open>get_stats\<close> raises
  \<open>HTTPException(status_code=404)\<close>. When the row \<open>m\<close> has it, the answer is the code,
  \<open>m\<close>'s \<open>original_url\<close> and \<open>created_at\<close>, and as \<open>total_clicks\<close> the number of click rows
  whose \<open>url_id\<close> is \<open>m\<close>'s id. The database is unchanged either way.
\<close>

theorem get_stats_result:
  "(code \<notin> set (short_codes d) \<longrightarrow>
      get_stats code (SessionLocal d)
        = (Inl (HTTPException 404 ''Short code not found''), SessionLocal d))
   \<and> (distinct (short_codes d) \<and> m \<in> set (url_mappings d) \<and> UrlMapping.short_code m = code \<longrightarrow>
      get_stats code (SessionLocal d)
        = (Inr \<lparr>StatsResponse.short_code = code,
                 original_url = UrlMapping.original_url m,
                 total_clicks =
                   int (card {i. i < length (clicks d) \<and> Click.url_id (clicks d ! i) = UrlMapping.id m}),
                 created_at = UrlMapping.created_at m\<rparr>,
           SessionLocal d))"
proof (intro conjI impI)
  assume "code \<notin> set (short_codes d)"
  then show "get_stats code (SessionLocal d)
      = (Inl (HTTPException 404 ''Short code not found''), SessionLocal d)"
    by (rule stats_absent)
next
  assume "distinct (short_codes d) \<and> m \<in> set (url_mappings d) \<and> UrlMapping.short_code m = code"
  then have "find (\<lambda>r. UrlMapping.short_code r = code) (url_mappings d) = Some m"
    using find_Some_short_code [of d m] by auto
  from stats_found [OF this]
  show "get_stats code (SessionLocal d)
        = (Inr \<lparr>StatsResponse.short_code = code,
                 original_url = UrlMapping.original_url m,
                 total_clicks =
                   int (card {i. i < length (clicks d) \<and> Click.url_id (clicks d ! i) = UrlMapping.id m}),
                 created_at = UrlMapping.created_at m\<rparr>,
           SessionLocal d)"
    by (simp add: length_filter_conv_card)
qed

theorem get_stats_result_witness:
  "''zzzzzzz'' \<notin> set (short_codes example_clicked)
   \<and> get_stats ''zzzzzzz'' (SessionLocal example_clicked)
       = (Inl (HTTPException 404 ''Short code not found''), SessionLocal example_clicked)
   \<and> distinct (short_codes example_clicked)
   \<and> get_stats ''aB7xK9m'' (SessionLocal example_clicked)
       = (Inr \<lparr>StatsResponse.short_code = ''aB7xK9m'', original_url = ''https://example.com/a'',
                total_clicks = 1, created_at = 100\<rparr>, SessionLocal example_clicked)"
proof -
  let ?m = "\<lparr>UrlMapping.id = 1, original_url = ''https://example.com/a'',
             short_code = ''aB7xK9m'', created_at = 100\<rparr>"
  have absent: "''zzzzzzz'' \<notin> set (short_codes example_clicked)"
    and inv: "distinct (short_codes example_clicked)"
    and row: "?m \<in> set (url_mappings example_clicked)"
    by (simp_all add: short_codes_def example_clicked_def example_database_def)
  have count: "{i. i < length (clicks example_clicked)
      \<and> Click.url_id (clicks example_clicked ! i) = 1} = {0}"
    by (auto simp: example_clicked_def)
  from get_stats_result [of "''zzzzzzz''" example_clicked] absent
  have "get_stats ''zzzzzzz'' (SessionLocal example_clicked)
       = (Inl (HTTPException 404 ''Short code not found''), SessionLocal example_clicked)"
    by blast
  moreover
  from get_stats_result [of "''aB7xK9m''" example_clicked ?m] inv row
  have "get_stats ''aB7xK9m'' (SessionLocal example_clicked)
       = (Inr \<lparr>StatsResponse.short_code = ''aB7xK9m'', original_url = ''https://example.com/a'',
                total_clicks = 1, created_at = 100\<rparr>, SessionLocal example_clicked)"
    by (simp add: count)
  ultimately show ?thesis
    using absent inv by (intro conjI)
qed

section \<open>Repeated reads\<close>

lemma count_after_click:
  "query_Click_count j (SessionLocal (d\<lparr>clicks := clicks d @ [click_row now i a b d]\<rparr>))
     = query_Click_count j (SessionLocal d) + (if i = j then 1 else 0)"
  by (simp add: query_Click_count_def)

lemma stats_found_count:
  "find (\<lambda>r. UrlMapping.short_code r = code) (url_mappings d) = Some m \<Longrightarrow>
   get_stats code (SessionLocal d)
     = (Inr \<lparr>StatsResponse.short_code = code,
              original_url = UrlMapping.original_url m,
              total_clicks = query_Click_count (UrlMapping.id m) (SessionLocal d),
              created_at = UrlMapping.created_at m\<rparr>, SessionLocal d)"
  by (simp add: stats_found query_Click_count_def)

lemma run_calls_found:
  assumes "find (\<lambda>r. UrlMapping.short_code r = code) (url_mappings d) = Some m"
    and "run_calls code cs d = (answers, d')"
  shows "url_mappings d' = url_mappings d
    \<and> query_Click_count (UrlMapping.id m) (SessionLocal d')
        = query_Click_count (UrlMapping.id m) (SessionLocal d) + int (redirects cs)
    \<and> length answers = length cs
    \<and> (\<forall>k<length cs. answers ! k =
          (case cs ! k of
             Redirect request now \<Rightarrow>
               Redirected (Inr \<lparr>url = UrlMapping.original_url m, status_code = 302\<rparr>)
           | Stats \<Rightarrow>
               Reported (Inr \<lparr>StatsResponse.short_code = code,
                  original_url = UrlMapping.original_url m,
                  total_clicks = query_Click_count (UrlMapping.id m) (SessionLocal d)
                    + int (redirects (take k cs)),
                  created_at = UrlMapping.created_at m\<rparr>)))"
  using assms
proof (induction cs arbitrary: d answers)
  case Nil
  then show ?case by simp
next
  case (Cons c cs)
  show ?case
  proof (cases c)
    case (Redirect request now)
    let ?d1 = "d\<lparr>clicks := clicks d @
          [click_row now (UrlMapping.id m)
             (case client request of Some a \<Rightarrow> host a | None \<Rightarrow> ''unknown'')
             (case map_of (headers request) ''user-agent'' of None \<Rightarrow> ''unknown'' | Some v \<Rightarrow> v)
             d]\<rparr>"
    obtain rs where rest: "run_calls code cs ?d1 = (rs, d')"
      and answers: "answers = Redirected (Inr \<lparr>url = UrlMapping.original_url m, status_code = 302\<rparr>) # rs"
      using Cons.prems(2) unfolding Redirect
      by (auto simp: redirect_found [OF Cons.prems(1)] split: prod.splits)
    have found1: "find (\<lambda>r. UrlMapping.short_code r = code) (url_mappings ?d1) = Some m"
      using Cons.prems(1) by simp
    note IH = Cons.IH [OF found1 rest]
    have count1: "query_Click_count (UrlMapping.id m) (SessionLocal ?d1)
        = query_Click_count (UrlMapping.id m) (SessionLocal d) + 1"
      by (simp add: count_after_click)
    have nth: "answers ! k =
          (case (c # cs) ! k of
             Redirect request now \<Rightarrow>
               Redirected (Inr \<lparr>url = UrlMapping.original_url m, status_code = 302\<rparr>)
           | Stats \<Rightarrow>
               Reported (Inr \<lparr>StatsResponse.short_code = code,
                  original_url = UrlMapping.original_url m,
                  total_clicks = query_Click_count (UrlMapping.id m) (SessionLocal d)
                    + int (redirects (take k (c # cs))),
                  created_at = UrlMapping.created_at m\<rparr>))"
      if "k < length (c # cs)" for k
    proof (cases k)
      case 0
      then show ?thesis by (simp add: answers Redirect)
    next
      case (Suc k')
      with that have "k' < length cs" by simp
      with IH have "rs ! k' =
          (case cs ! k' of
             Redirect request now \<Rightarrow>
               Redirected (Inr \<lparr>url = UrlMapping.original_url m, status_code = 302\<rparr>)
           | Stats \<Rightarrow>
               Reported (Inr \<lparr>StatsResponse.short_code = code,
                  original_url = UrlMapping.original_url m,
                  total_clicks = query_Click_count (UrlMapping.id m) (SessionLocal ?d1)
                    + int (redirects (take k' cs)),
                  created_at = UrlMapping.created_at m\<rparr>))"
        by blast
      then show ?thesis
        unfolding count1 by (simp add: Suc answers Redirect split: call.splits)
    qed
    from IH nth show ?thesis
      by (simp add: count1 answers Redirect)
  next
    case Stats
    obtain rs where rest: "run_calls code cs d = (rs, d')"
      and answers: "answers = Reported (Inr \<lparr>StatsResponse.short_code = code,
                  original_url = UrlMapping.original_url m,
                  total_clicks = query_Click_count (UrlMapping.id m) (SessionLocal d),
                  created_at = UrlMapping.created_at m\<rparr>) # rs"
      using Cons.prems(2) unfolding Stats
      by (auto simp: stats_found_count [OF Cons.prems(1)] split: prod.splits)
    note IH = Cons.IH [OF Cons.prems(1) rest]
    have nth: "answers ! k =
          (case (c # cs) ! k of
             Redirect request now \<Rightarrow>
               Redirected (Inr \<lparr>url = UrlMapping.original_url m, status_code = 302\<rparr>)
           | Stats \<Rightarrow>
               Reported (Inr \<lparr>StatsResponse.short_code = code,
                  original_url = UrlMapping.original_url m,
                  total_clicks = query_Click_count (UrlMapping.id m) (SessionLocal d)
                    + int (redirects (take k (c # cs))),
                  created_at = UrlMapping.created_at m\<rparr>))"
      if "k < length (c # cs)" for k
    proof (cases k)
      case 0
      then show ?thesis by (simp add: answers Stats)
    next
      case (Suc k')
      with that have "k' < length cs" by simp
      with IH have "rs ! k' =
          (case cs ! k' of
             Redirect request now \<Rightarrow>
               Redirected (Inr \<lparr>url = UrlMapping.original_url m, status_code = 302\<rparr>)
           | Stats \<Rightarrow>
               Reported (Inr \<lparr>StatsResponse.short_code = code,
                  original_url = UrlMapping.original_url m,
                  total_clicks = query_Click_count (UrlMapping.id m) (SessionLocal d)
                    + int (redirects (take k' cs)),
                  created_at = UrlMapping.created_at m\<rparr>))"
        by blast
      then show ?thesis
        by (simp add: Suc answers Stats split: call.splits)
    qed
    from IH nth show ?thesis
      by (simp add: answers Stats)
  qed
qed

text \<open>
  C8. Take a code for which \<open>get_stats\<close> answers \<open>st\<close>, and any run of redirects and
  statistics requests on that code with nothing else written in between. Every redirect
  answers 302 with \<open>st\<close>'s \<open>original_url\<close>; every statistics answer is \<open>st\<close> with
  \<open>total_clicks\<close> raised by the number of redirects made before it, so each redirect
  raises the count by exactly 1.
\<close>

theorem repeated_reads:
  assumes "fst (get_stats code (SessionLocal d)) = Inr st"
    and "run_calls code cs d = (answers, d')"
  shows "length answers = length cs
    \<and> (\<forall>k<length cs. answers ! k =
          (case cs ! k of
             Redirect request now \<Rightarrow>
               Redirected (Inr \<lparr>url = StatsResponse.original_url st, status_code = 302\<rparr>)
           | Stats \<Rightarrow>
               Reported (Inr (st\<lparr>total_clicks :=
                  total_clicks st + int (redirects (take k cs))\<rparr>))))
    \<and> fst (get_stats code (SessionLocal d'))
        = Inr (st\<lparr>total_clicks := total_clicks st + int (redirects cs)\<rparr>)"
proof (cases "find (\<lambda>r. UrlMapping.short_code r = code) (url_mappings d)")
  case None
  then have "code \<notin> set (short_codes d)"
    by (auto simp: find_None_iff short_codes_def)
  with assms(1) show ?thesis by (simp add: stats_absent)
next
  case (Some m)
  from assms(1) have st: "st = \<lparr>StatsResponse.short_code = code,
      original_url = UrlMapping.original_url m,
      total_clicks = query_Click_count (UrlMapping.id m) (SessionLocal d),
      created_at = UrlMapping.created_at m\<rparr>"
    unfolding stats_found_count [OF Some] by simp
  note run = run_calls_found [OF Some assms(2)]
  from run Some have "find (\<lambda>r. UrlMapping.short_code r = code) (url_mappings d') = Some m"
    by simp
  from stats_found_count [OF this] run
  have after: "fst (get_stats code (SessionLocal d'))
      = Inr (st\<lparr>total_clicks := total_clicks st + int (redirects cs)\<rparr>)"
    by (simp add: st)
  have each: "answers ! k =
          (case cs ! k of
             Redirect request now \<Rightarrow>
               Redirected (Inr \<lparr>url = StatsResponse.original_url st, status_code = 302\<rparr>)
           | Stats \<Rightarrow>
               Reported (Inr (st\<lparr>total_clicks :=
                  total_clicks st + int (redirects (take k cs))\<rparr>)))"
    if "k < length cs" for k
    using run that by (simp add: st split: call.splits)
  from run after each show ?thesis by blast
qed

theorem repeated_reads_witness:
  "fst (get_stats ''aB7xK9m'' (SessionLocal example_database))
     = Inr \<lparr>StatsResponse.short_code = ''aB7xK9m'', original_url = ''https://example.com/a'',
            total_clicks = 0, created_at = 100\<rparr>
   \<and> run_calls ''aB7xK9m'' [Stats, Redirect example_request 300, Stats] example_database
     = ([Reported (Inr \<lparr>StatsResponse.short_code = ''aB7xK9m'',
            original_url = ''https://example.com/a'', total_clicks = 0, created_at = 100\<rparr>),
         Redirected (Inr \<lparr>url = ''https://example.com/a'', status_code = 302\<rparr>),
         Reported (Inr \<lparr>StatsResponse.short_code = ''aB7xK9m'',
            original_url = ''https://example.com/a'', total_clicks = 1, created_at = 100\<rparr>)],
        example_clicked)
   \<and> fst (get_stats ''aB7xK9m'' (SessionLocal example_clicked))
     = Inr \<lparr>StatsResponse.short_code = ''aB7xK9m'', original_url = ''https://example.com/a'',
            total_clicks = 1, created_at = 100\<rparr>"
proof -
  have before: "get_stats ''aB7xK9m'' (SessionLocal example_database)
     = (Inr \<lparr>StatsResponse.short_code = ''aB7xK9m'', original_url = ''https://example.com/a'',
            total_clicks = 0, created_at = 100\<rparr>, SessionLocal example_database)"
    by (simp add: get_stats_def query_UrlMapping_first_def query_Click_count_def
        SessionLocal_def example_database_def)
  have after: "get_stats ''aB7xK9m'' (SessionLocal example_clicked)
     = (Inr \<lparr>StatsResponse.short_code = ''aB7xK9m'', original_url = ''https://example.com/a'',
            total_clicks = 1, created_at = 100\<rparr>, SessionLocal example_clicked)"
    by (simp add: get_stats_def query_UrlMapping_first_def query_Click_count_def
        SessionLocal_def example_database_def example_clicked_def)
  have run: "run_calls ''aB7xK9m'' [Stats, Redirect example_request 300, Stats] example_database
     = ([Reported (Inr \<lparr>StatsResponse.short_code = ''aB7xK9m'',
            original_url = ''https://example.com/a'', total_clicks = 0, created_at = 100\<rparr>),
         Redirected (Inr \<lparr>url = ''https://example.com/a'', status_code = 302\<rparr>),
         Reported (Inr \<lparr>StatsResponse.short_code = ''aB7xK9m'',
            original_url = ''https://example.com/a'', total_clicks = 1, created_at = 100\<rparr>)],
        example_clicked)"
    by (simp add: before after example_redirect)
  have start: "fst (get_stats ''aB7xK9m'' (SessionLocal example_database))
     = Inr \<lparr>StatsResponse.short_code = ''aB7xK9m'', original_url = ''https://example.com/a'',
            total_clicks = 0, created_at = 100\<rparr>"
    by (simp add: before)
  from repeated_reads [OF start run]
  have "fst (get_stats ''aB7xK9m'' (SessionLocal example_clicked))
     = Inr \<lparr>StatsResponse.short_code = ''aB7xK9m'', original_url = ''https://example.com/a'',
            total_clicks = 1, created_at = 100\<rparr>"
    by simp
  with start run show ?thesis by (intro conjI)
qed

section \<open>What a redirect leaves alone, and what it stores\<close>

text \<open>
  C10. A successful \<open>redirect_short_code\<close> on \<open>code\<close> leaves the mapping table as it
  was and appends one click, which refers to the id of the mapping \<open>m\<close> that has the code.
  The number of clicks counted for \<open>m\<close>'s id grows by one and that of every other id stays;
  so, ids being unique, the count of every other mapping and the statistics of every
  other code stay as they were.
\<close>

theorem redirect_short_code_frame:
  assumes "redirect_short_code code request now (SessionLocal d) = (Inr resp, db')"
  shows "url_mappings (bind db') = url_mappings d
    \<and> (\<exists>m click.
          find (\<lambda>r. UrlMapping.short_code r = code) (url_mappings d) = Some m
          \<and> clicks (bind db') = clicks d @ [click]
          \<and> Click.url_id click = UrlMapping.id m
          \<and> query_Click_count (UrlMapping.id m) db'
              = query_Click_count (UrlMapping.id m) (SessionLocal d) + 1
          \<and> (\<forall>i. i \<noteq> UrlMapping.id m \<longrightarrow>
                query_Click_count i db' = query_Click_count i (SessionLocal d))
          \<and> (distinct (map UrlMapping.id (url_mappings d)) \<longrightarrow>
                (\<forall>m' \<in> set (url_mappings d). m' \<noteq> m \<longrightarrow>
                   query_Click_count (UrlMapping.id m') db'
                     = query_Click_count (UrlMapping.id m') (SessionLocal d))
                \<and> (\<forall>code'. code' \<noteq> code \<longrightarrow>
                   fst (get_stats code' db') = fst (get_stats code' (SessionLocal d)))))"
proof (cases "find (\<lambda>r. UrlMapping.short_code r = code) (url_mappings d)")
  case None
  then have "code \<notin> set (short_codes d)"
    by (auto simp: find_None_iff short_codes_def)
  with assms show ?thesis by (simp add: redirect_absent)
next
  case (Some m)
  let ?click = "click_row now (UrlMapping.id m)
      (case client request of Some a \<Rightarrow> host a | None \<Rightarrow> ''unknown'')
      (case map_of (headers request) ''user-agent'' of None \<Rightarrow> ''unknown'' | Some v \<Rightarrow> v) d"
  let ?d1 = "d\<lparr>clicks := clicks d @ [?click]\<rparr>"
  from assms have db': "db' = SessionLocal ?d1"
    unfolding redirect_found [OF Some] by simp
  have m: "m \<in> set (url_mappings d)" and m_code: "UrlMapping.short_code m = code"
    using find_SomeD [OF Some] by simp_all
  have own: "query_Click_count (UrlMapping.id m) db'
      = query_Click_count (UrlMapping.id m) (SessionLocal d) + 1"
    by (simp add: db' count_after_click)
  have other: "query_Click_count i db' = query_Click_count i (SessionLocal d)"
    if "i \<noteq> UrlMapping.id m" for i
    using that by (simp add: db' count_after_click)
  have rows: "query_Click_count (UrlMapping.id m') db'
      = query_Click_count (UrlMapping.id m') (SessionLocal d)"
    if "distinct (map UrlMapping.id (url_mappings d))" "m' \<in> set (url_mappings d)" "m' \<noteq> m"
    for m'
  proof -
    from that m have "UrlMapping.id m' \<noteq> UrlMapping.id m"
      by (auto simp: distinct_map dest: inj_onD)
    then show ?thesis by (rule other)
  qed
  have codes: "fst (get_stats code' db') = fst (get_stats code' (SessionLocal d))"
    if ids: "distinct (map UrlMapping.id (url_mappings d))" and "code' \<noteq> code" for code'
  proof (cases "find (\<lambda>r. UrlMapping.short_code r = code') (url_mappings d)")
    case None
    then have "code' \<notin> set (short_codes d)"
      by (auto simp: find_None_iff short_codes_def)
    then show ?thesis by (simp add: db' stats_absent)
  next
    case found: (Some m')
    have "m' \<in> set (url_mappings d)" and "UrlMapping.short_code m' = code'"
      using find_SomeD [OF found] by simp_all
    with that m_code have "m' \<in> set (url_mappings d)" and "m' \<noteq> m" by auto
    from rows [OF ids this] have "query_Click_count (UrlMapping.id m') (SessionLocal ?d1)
        = query_Click_count (UrlMapping.id m') (SessionLocal d)"
      by (simp add: db')
    moreover have "find (\<lambda>r. UrlMapping.short_code r = code') (url_mappings ?d1) = Some m'"
      using found by simp
    ultimately show ?thesis
      unfolding db' stats_found_count [OF found] stats_found_count [OF \<open>find _ (url_mappings ?d1) = Some m'\<close>]
      by simp
  qed
  have "url_mappings (bind db') = url_mappings d" "clicks (bind db') = clicks d @ [?click]"
    "Click.url_id ?click = UrlMapping.id m"
    by (simp_all add: db')
  with Some own other rows codes show ?thesis by blast
qed

theorem redirect_short_code_frame_witness:
  "redirect_short_code ''aB7xK9m'' example_request 300 (SessionLocal example_two)
     = (Inr \<lparr>url = ''https://example.com/a'', status_code = 302\<rparr>,
        SessionLocal (example_two\<lparr>clicks := clicks example_two @
          [\<lparr>Click.id = 2, url_id = 1, clicked_at = 300,
            ip_address = ''203.0.113.7'', user_agent = ''curl/8.5.0''\<rparr>]\<rparr>))
   \<and> distinct (map UrlMapping.id (url_mappings example_two))
   \<and> fst (get_stats ''0000000'' (SessionLocal example_two))
     = Inr \<lparr>StatsResponse.short_code = ''0000000'', original_url = ''https://example.org/b'',
            total_clicks = 1, created_at = 150\<rparr>
   \<and> fst (get_stats ''0000000'' (SessionLocal (example_two\<lparr>clicks := clicks example_two @
          [\<lparr>Click.id = 2, url_id = 1, clicked_at = 300,
            ip_address = ''203.0.113.7'', user_agent = ''curl/8.5.0''\<rparr>]\<rparr>)))
     = Inr \<lparr>StatsResponse.short_code = ''0000000'', original_url = ''https://example.org/b'',
            total_clicks = 1, created_at = 150\<rparr>"
proof -
  have run: "redirect_short_code ''aB7xK9m'' example_request 300 (SessionLocal example_two)
     = (Inr \<lparr>url = ''https://example.com/a'', status_code = 302\<rparr>,
        SessionLocal (example_two\<lparr>clicks := clicks example_two @
          [\<lparr>Click.id = 2, url_id = 1, clicked_at = 300,
            ip_address = ''203.0.113.7'', user_agent = ''curl/8.5.0''\<rparr>]\<rparr>))"
    by (simp add: redirect_short_code_def query_UrlMapping_first_def commit_click headers_get_def
        SessionLocal_def Let_def example_two_def example_request_def click_row_def next_rowid_def)
  have ids: "distinct (map UrlMapping.id (url_mappings example_two))"
    by (simp add: example_two_def)
  have before: "fst (get_stats ''0000000'' (SessionLocal example_two))
     = Inr \<lparr>StatsResponse.short_code = ''0000000'', original_url = ''https://example.org/b'',
            total_clicks = 1, created_at = 150\<rparr>"
    by (simp add: get_stats_def query_UrlMapping_first_def query_Click_count_def
        SessionLocal_def example_two_def)
  from redirect_short_code_frame [OF run] ids
  have "fst (get_stats ''0000000'' (SessionLocal (example_two\<lparr>clicks := clicks example_two @
          [\<lparr>Click.id = 2, url_id = 1, clicked_at = 300,
            ip_address = ''203.0.113.7'', user_agent = ''curl/8.5.0''\<rparr>]\<rparr>)))
      = fst (get_stats ''0000000'' (SessionLocal example_two))"
    by fastforce
  with run ids before show ?thesis by simp
qed

lemma example_long_redirect:
  "redirect_short_code ''aB7xK9m'' long_agent_request 300 (SessionLocal example_database)
     = (Inr \<lparr>url = ''https://example.com/a'', status_code = 302\<rparr>,
        SessionLocal (example_database\<lparr>clicks :=
          [\<lparr>Click.id = 1, url_id = 1, clicked_at = 300, ip_address = ''203.0.113.7'',
            user_agent = replicate 256 (CHR ''A'')\<rparr>]\<rparr>))"
  by (simp add: redirect_short_code_def query_UrlMapping_first_def commit_click headers_get_def
      SessionLocal_def Let_def example_database_def long_agent_request_def click_row_def
      next_rowid_def)

text \<open>
  C9, as stated: every stored click has a \<open>user_agent\<close> of at most 255 characters, the
  width its column declares. It fails: the handler hands the \<open>user-agent\<close> header to the
  click as it is, and the store keeps it whole. A header of 256 characters is stored with
  all its 256 characters.
\<close>

theorem redirect_stores_long_user_agent:
  "map Click.user_agent
     (clicks (bind (snd (redirect_short_code ''aB7xK9m'' long_agent_request 300
        (SessionLocal example_database)))))
     = [replicate 256 (CHR ''A'')]
   \<and> \<not> length (replicate 256 (CHR ''A'')) \<le> 255"
  by (simp add: example_long_redirect)

text \<open>
  C9, amended: the click that a successful \<open>redirect_short_code\<close> stores carries the
  \<open>user-agent\<close> header of the request unchanged, whatever its length, and \<open>unknown\<close> when
  the request has none; so the stored string has the length of the one supplied.
\<close>

theorem redirect_stores_user_agent:
  assumes "redirect_short_code code request now (SessionLocal d) = (Inr resp, db')"
  shows "\<exists>click. clicks (bind db') = clicks d @ [click]
    \<and> Click.user_agent click = headers_get (headers request) ''user-agent'' ''unknown''
    \<and> length (Click.user_agent click)
        = length (headers_get (headers request) ''user-agent'' ''unknown'')"
proof (cases "find (\<lambda>r. UrlMapping.short_code r = code) (url_mappings d)")
  case None
  then have "code \<notin> set (short_codes d)"
    by (auto simp: find_None_iff short_codes_def)
  with assms show ?thesis by (simp add: redirect_absent)
next
  case (Some m)
  let ?agent = "case map_of (headers request) ''user-agent'' of None \<Rightarrow> ''unknown'' | Some v \<Rightarrow> v"
  let ?click = "click_row now (UrlMapping.id m)
      (case client request of Some a \<Rightarrow> host a | None \<Rightarrow> ''unknown'') ?agent d"
  from assms have "db' = SessionLocal (d\<lparr>clicks := clicks d @ [?click]\<rparr>)"
    unfolding redirect_found [OF Some] by simp
  then have "clicks (bind db') = clicks d @ [?click]" by simp
  moreover have "Click.user_agent ?click = headers_get (headers request) ''user-agent'' ''unknown''"
    by (simp add: headers_get_def)
  ultimately show ?thesis by (intro exI [of _ ?click]) simp
qed

theorem redirect_stores_user_agent_witness:
  "redirect_short_code ''aB7xK9m'' long_agent_request 300 (SessionLocal example_database)
     = (Inr \<lparr>url = ''https://example.com/a'', status_code = 302\<rparr>,
        SessionLocal (example_database\<lparr>clicks :=
          [\<lparr>Click.id = 1, url_id = 1, clicked_at = 300, ip_address = ''203.0.113.7'',
            user_agent = replicate 256 (CHR ''A'')\<rparr>]\<rparr>))
   \<and> headers_get (headers long_agent_request) ''user-agent'' ''unknown'' = replicate 256 (CHR ''A'')
   \<and> (\<exists>click. [\<lparr>Click.id = 1, url_id = 1, clicked_at = 300, ip_address = ''203.0.113.7'',
            user_agent = replicate 256 (CHR ''A'')\<rparr>] = clicks example_database @ [click]
         \<and> Click.user_agent click = replicate 256 (CHR ''A'')
         \<and> length (Click.user_agent click) = 256)"
proof -
  have agent: "headers_get (headers long_agent_request) ''user-agent'' ''unknown''
      = replicate 256 (CHR ''A'')"
    by (simp add: headers_get_def long_agent_request_def)
  from redirect_stores_user_agent [OF example_long_redirect]
  have "\<exists>click. [\<lparr>Click.id = 1, url_id = 1, clicked_at = 300, ip_address = ''203.0.113.7'',
            user_agent = replicate 256 (CHR ''A'')\<rparr>] = clicks example_database @ [click]
         \<and> Click.user_agent click = replicate 256 (CHR ''A'')
         \<and> length (Click.user_agent click) = 256"
    by (simp add: agent example_database_def)
  with example_long_redirect agent show ?thesis by (intro conjI)
qed

section \<open>The attempts of one request\<close>

lemma candidate_retry_rng:
  "candidate retry_rng 0 = ''aB7xK9m''" "candidate retry_rng (Suc 0) = ''789abcd''"
  by (simp_all add: candidate_def generate_short_code_def choices_eq advance_def
      retry_rng_def BASE62_CHARS_eq upt_rec [of _ 7] upt_rec [of _ "Suc _"])

lemma example_retry:
  "create_short_url example_payload 200 retry_rng (SessionLocal example_database)
     = (Inr \<lparr>ShortenResponse.short_code = ''789abcd'', original_url = ''https://example.com/a''\<rparr>,
        advance 14 retry_rng, SessionLocal example_retried)"
  using loop_success [where db = "SessionLocal example_database" and k = 1 and n = 5
      and g = retry_rng and now = 200 and u = "''https://example.com/a''"]
  by (simp add: create_short_url_def candidate_retry_rng example_payload_def
      short_codes_def example_database_def example_retried_def SessionLocal_def
      mapping_row_def next_rowid_def)

text \<open>
  C1. One call of \<open>create_short_url\<close> on a fresh session makes \<open>n\<close> attempts,
  \<open>1 \<le> n \<le> 5\<close>, one after the other. Attempt \<open>k\<close> draws the fresh code \<open>candidate g k\<close>
  (the generator has advanced by seven draws for each attempt made, and by no more) and
  commits one INSERT of it. Each attempt before the last met a code already in the
  table: its commit raised \<open>IntegrityError\<close> and its rollback put the session back. Either
  the last attempt's commit succeeded: then the session returned is the one that this
  single commit leaves, with the one new row, and the answer carries the code and URL of
  that row as \<open>refresh\<close> reads it; nothing is drawn or written after it. Or the commits of
  all five codes raised \<open>IntegrityError\<close>: then the session is as it was at the start and
  the call fails with \<open>HTTPException(status_code=500)\<close>.
\<close>

theorem create_short_url_attempts:
  assumes "create_short_url payload now g (SessionLocal d) = (r, g', db')"
  shows "\<exists>n. 1 \<le> n \<and> n \<le> 5 \<and> g' = advance (7 * n) g
    \<and> (\<forall>j<n - 1. candidate g j \<in> set (short_codes d)
          \<and> commit now (add (New_UrlMapping (ShortenRequest.original_url payload)
                (candidate g j)) (SessionLocal d)) = Inl IntegrityError
          \<and> rollback (add (New_UrlMapping (ShortenRequest.original_url payload)
                (candidate g j)) (SessionLocal d)) = SessionLocal d)
    \<and> (case r of
          Inr resp \<Rightarrow>
            candidate g (n - 1) \<notin> set (short_codes d)
            \<and> resp = \<lparr>ShortenResponse.short_code = candidate g (n - 1),
                       original_url = ShortenRequest.original_url payload\<rparr>
            \<and> (\<exists>row.
                  commit now (add (New_UrlMapping (ShortenRequest.original_url payload)
                    (candidate g (n - 1))) (SessionLocal d)) = Inr ([Row_UrlMapping row], db')
                  \<and> refresh row db' = Some row
                  \<and> UrlMapping.short_code row = ShortenResponse.short_code resp
                  \<and> UrlMapping.original_url row = ShortenResponse.original_url resp
                  \<and> url_mappings (bind db') = url_mappings d @ [row]
                  \<and> clicks (bind db') = clicks d \<and> new db' = [])
        | Inl e \<Rightarrow>
            n = 5 \<and> candidate g 4 \<in> set (short_codes d)
            \<and> commit now (add (New_UrlMapping (ShortenRequest.original_url payload)
                  (candidate g 4)) (SessionLocal d)) = Inl IntegrityError
            \<and> db' = SessionLocal d
            \<and> e = HTTPException 500 ''Failed to generate unique short code''
            \<and> status_of e = 500)"
proof -
  let ?u = "ShortenRequest.original_url payload"
  have conflict: "commit now (add (New_UrlMapping ?u c) (SessionLocal d)) = Inl IntegrityError
      \<and> rollback (add (New_UrlMapping ?u c) (SessionLocal d)) = SessionLocal d"
    if "c \<in> set (short_codes d)" for c
    using that by (simp add: commit_conflict rollback_add)
  show ?thesis
  proof (cases rule: create_short_url_cases [of g d payload now])
    case exhausted
    with assms have r: "r = Inl (HTTPException 500 ''Failed to generate unique short code'')"
      and g': "g' = advance 35 g" and db': "db' = SessionLocal d" by simp_all
    from exhausted(1) have last: "candidate g 4 \<in> set (short_codes d)" by simp
    from exhausted(1) conflict
    have before: "\<forall>j<5 - 1. candidate g j \<in> set (short_codes d)
          \<and> commit now (add (New_UrlMapping ?u (candidate g j)) (SessionLocal d)) = Inl IntegrityError
          \<and> rollback (add (New_UrlMapping ?u (candidate g j)) (SessionLocal d)) = SessionLocal d"
      by simp
    from before last conflict [OF last] r g' db' show ?thesis
      by (intro exI [of _ 5]) simp
  next
    case (created k)
    let ?row = "mapping_row now ?u (candidate g k) d"
    from created(4) assms
    have r: "r = Inr \<lparr>ShortenResponse.short_code = candidate g k, original_url = ?u\<rparr>"
      and g': "g' = advance (7 * Suc k) g"
      and db': "db' = SessionLocal (d\<lparr>url_mappings := url_mappings d @ [?row]\<rparr>)"
      by simp_all
    from created(2) conflict
    have before: "\<forall>j<Suc k - 1. candidate g j \<in> set (short_codes d)
          \<and> commit now (add (New_UrlMapping ?u (candidate g j)) (SessionLocal d)) = Inl IntegrityError
          \<and> rollback (add (New_UrlMapping ?u (candidate g j)) (SessionLocal d)) = SessionLocal d"
      by simp
    have committed: "commit now (add (New_UrlMapping ?u (candidate g k)) (SessionLocal d))
        = Inr ([Row_UrlMapping ?row], db')"
      using created(3) by (simp add: commit_fresh db' SessionLocal_def)
    have read: "refresh ?row db' = Some ?row"
      using refresh_mapping_row [of now ?u "candidate g k" d] by (simp add: db' SessionLocal_def)
    have row: "\<exists>row.
        commit now (add (New_UrlMapping ?u (candidate g (Suc k - 1))) (SessionLocal d))
          = Inr ([Row_UrlMapping row], db')
        \<and> refresh row db' = Some row
        \<and> UrlMapping.short_code row = candidate g k
        \<and> UrlMapping.original_url row = ?u
        \<and> url_mappings (bind db') = url_mappings d @ [row]
        \<and> clicks (bind db') = clicks d \<and> new db' = []"
      using committed read by (intro exI [of _ ?row]) (simp add: db')
    from created(1,3) before row r g' show ?thesis
      by (intro exI [of _ "Suc k"]) simp
  qed
qed

theorem create_short_url_attempts_witness:
  "create_short_url example_payload 200 retry_rng (SessionLocal example_database)
     = (Inr \<lparr>ShortenResponse.short_code = ''789abcd'', original_url = ''https://example.com/a''\<rparr>,
        advance 14 retry_rng, SessionLocal example_retried)
   \<and> commit 200 (add (New_UrlMapping ''https://example.com/a'' ''aB7xK9m'')
        (SessionLocal example_database)) = Inl IntegrityError
   \<and> rollback (add (New_UrlMapping ''https://example.com/a'' ''aB7xK9m'')
        (SessionLocal example_database)) = SessionLocal example_database
   \<and> commit 200 (add (New_UrlMapping ''https://example.com/a'' ''789abcd'')
        (SessionLocal example_database))
      = Inr ([Row_UrlMapping \<lparr>UrlMapping.id = 2, original_url = ''https://example.com/a'',
                short_code = ''789abcd'', created_at = 200\<rparr>], SessionLocal example_retried)
   \<and> create_short_url example_payload 200 example_rng (SessionLocal example_database)
     = (Inl (HTTPException 500 ''Failed to generate unique short code''),
        advance 35 example_rng, SessionLocal example_database)
   \<and> candidate example_rng 4 \<in> set (short_codes example_database)"
proof -
  let ?u = "''https://example.com/a''"
  let ?row = "\<lparr>UrlMapping.id = 2, original_url = ?u, short_code = ''789abcd'', created_at = 200\<rparr>"
  from create_short_url_attempts [OF example_retry]
  obtain n where n: "1 \<le> n" "n \<le> 5" and g': "advance 14 retry_rng = advance (7 * n) retry_rng"
    and before: "\<forall>j<n - 1.
          commit 200 (add (New_UrlMapping ?u (candidate retry_rng j)) (SessionLocal example_database))
            = Inl IntegrityError
          \<and> rollback (add (New_UrlMapping ?u (candidate retry_rng j)) (SessionLocal example_database))
            = SessionLocal example_database"
    and last: "\<exists>row.
          commit 200 (add (New_UrlMapping ?u (candidate retry_rng (n - 1))) (SessionLocal example_database))
            = Inr ([Row_UrlMapping row], SessionLocal example_retried)
          \<and> url_mappings (bind (SessionLocal example_retried)) = url_mappings example_database @ [row]"
    by (auto simp: example_payload_def)
  from g' have "advance 14 retry_rng 0 = advance (7 * n) retry_rng 0" by simp
  with n have two: "n = 2" by (simp add: advance_def retry_rng_def)
  from before have first: "commit 200 (add (New_UrlMapping ?u ''aB7xK9m'') (SessionLocal example_database))
        = Inl IntegrityError
      \<and> rollback (add (New_UrlMapping ?u ''aB7xK9m'') (SessionLocal example_database))
        = SessionLocal example_database"
    unfolding two using candidate_retry_rng(1) by (simp del: One_nat_def)
  from last obtain row where
    "commit 200 (add (New_UrlMapping ?u ''789abcd'') (SessionLocal example_database))
       = Inr ([Row_UrlMapping row], SessionLocal example_retried)"
    and "url_mappings example_retried = url_mappings example_database @ [row]"
    unfolding two using candidate_retry_rng(2) by auto
  moreover from this(2) have "row = ?row"
    by (simp add: example_retried_def)
  ultimately have second:
    "commit 200 (add (New_UrlMapping ?u ''789abcd'') (SessionLocal example_database))
       = Inr ([Row_UrlMapping ?row], SessionLocal example_retried)"
    by simp
  from create_short_url_attempts [OF example_exhausted]
  have third: "candidate example_rng 4 \<in> set (short_codes example_database)"
    by auto
  from example_retry first second example_exhausted third show ?thesis
    by (intro conjI) simp_all
qed

section \<open>The header of the redirect\<close>

lemma length_quote:
  "length (quote s safe)
     = length s + 2 * length (filter (\<lambda>c. c \<notin> set always_safe \<and> c \<notin> set safe) s)"
  by (induction s) (auto simp: quote_def quoter_def)

lemma quote_eq_iff:
  "quote s safe = s \<longleftrightarrow> set s \<subseteq> set always_safe \<union> set safe"
proof
  assume "quote s safe = s"
  then have "length (quote s safe) = length s" by simp
  then have "filter (\<lambda>c. c \<notin> set always_safe \<and> c \<notin> set safe) s = []"
    by (simp add: length_quote)
  then show "set s \<subseteq> set always_safe \<union> set safe"
    by (auto simp: filter_empty_conv)
next
  assume "set s \<subseteq> set always_safe \<union> set safe"
  then show "quote s safe = s"
    by (induction s) (auto simp: quote_def quoter_def)
qed

lemma example_pipe_shorten:
  "create_short_url pipe_payload 100 example_rng (SessionLocal empty_database)
     = (Inr \<lparr>ShortenResponse.short_code = ''aB7xK9m'', original_url = ''https://example.com/a|b''\<rparr>,
        advance 7 example_rng, SessionLocal pipe_database)"
  using loop_success [where db = "SessionLocal empty_database" and k = 0 and n = 5
      and g = example_rng and now = 100 and u = "''https://example.com/a|b''"]
  by (simp add: create_short_url_def candidate_example_rng pipe_payload_def
      short_codes_def empty_database_def pipe_database_def SessionLocal_def
      mapping_row_def next_rowid_def)

text \<open>
  C4, as stated: the redirect sends back, as \<open>Location\<close>, the URL that was shortened, byte
  for byte. It fails: the response quotes the URL. The URL \<open>https://example.com/a|b\<close> is
  stored and answered as it is, and the redirect for its code sends
  \<open>https://example.com/a%7Cb\<close>.
\<close>

theorem round_trip_location_quoted:
  "create_short_url pipe_payload 100 example_rng (SessionLocal empty_database)
     = (Inr \<lparr>ShortenResponse.short_code = ''aB7xK9m'', original_url = ''https://example.com/a|b''\<rparr>,
        advance 7 example_rng, SessionLocal pipe_database)
   \<and> fst (redirect_short_code ''aB7xK9m'' example_request 300 (SessionLocal pipe_database))
     = Inr \<lparr>url = ''https://example.com/a|b'', status_code = 302\<rparr>
   \<and> location \<lparr>url = ''https://example.com/a|b'', status_code = 302\<rparr>
     = ''https://example.com/a%7Cb''
   \<and> ''https://example.com/a%7Cb'' \<noteq> ''https://example.com/a|b''"
proof -
  have "fst (redirect_short_code ''aB7xK9m'' example_request 300 (SessionLocal pipe_database))
     = Inr \<lparr>url = ''https://example.com/a|b'', status_code = 302\<rparr>"
    by (simp add: redirect_short_code_def query_UrlMapping_first_def commit_click
        SessionLocal_def Let_def pipe_database_def)
  moreover have "location \<lparr>url = ''https://example.com/a|b'', status_code = 302\<rparr>
     = ''https://example.com/a%7Cb''"
    by (simp add: location_def quote_def quoter_def always_safe_def)
  ultimately show ?thesis
    using example_pipe_shorten by simp
qed

text \<open>
  C4, amended: round trip. Let \<open>U\<close> be the URL of the request as the handler stores it, the
  string of the validated URL, which the answer of \<open>create_short_url\<close> returns. When
  \<open>create_short_url\<close> answers with a code, then \<open>redirect_short_code\<close> on that code, at
  once or after any further requests, answers \<open>RedirectResponse(url=U, status_code=302)\<close>.
  The \<open>Location\<close> header it sends is \<open>U\<close> quoted, and that is \<open>U\<close> byte for byte exactly when
  every byte of \<open>U\<close> is an ASCII letter, a digit or one of \<open>_.-~:/%#?=@[]!$&'()*+,;\<close>.
\<close>

theorem shorten_then_redirect:
  assumes "create_short_url payload now g (SessionLocal d) = (Inr resp, g', db')"
    and "reachable_from (bind db') d2"
  shows "\<exists>answer.
      fst (redirect_short_code (ShortenResponse.short_code resp) request now2 (SessionLocal d2))
        = Inr answer
      \<and> answer = \<lparr>url = ShortenRequest.original_url payload, status_code = 302\<rparr>
      \<and> ShortenResponse.original_url resp = ShortenRequest.original_url payload
      \<and> location answer = quote (ShortenRequest.original_url payload) '':/%#?=@[]!$&'()*+,;''
      \<and> (location answer = ShortenRequest.original_url payload
           \<longleftrightarrow> set (ShortenRequest.original_url payload)
                 \<subseteq> set always_safe \<union> set '':/%#?=@[]!$&'()*+,;'')"
proof (cases rule: create_short_url_cases [of g d payload now])
  case exhausted
  with assms(1) show ?thesis by simp
next
  case (created k)
  let ?u = "ShortenRequest.original_url payload"
  let ?row = "mapping_row now ?u (candidate g k) d"
  from created(4) assms(1)
  have code: "ShortenResponse.short_code resp = candidate g k"
    and orig: "ShortenResponse.original_url resp = ?u"
    and rows: "url_mappings (bind db') = url_mappings d @ [?row]"
    by auto
  from created(3)
  have "find (\<lambda>r. UrlMapping.short_code r = candidate g k) (url_mappings d @ [?row]) = Some ?row"
    by (intro find_appended) (force simp: short_codes_def)+
  moreover obtain ys where "url_mappings d2 = url_mappings (bind db') @ ys"
    using reachable_from_extends [OF assms(2)] by blast
  ultimately
  have "find (\<lambda>r. UrlMapping.short_code r = candidate g k) (url_mappings d2) = Some ?row"
    using rows by (simp add: find_append_Some del: append_assoc)
  from redirect_found [OF this, of request now2] code
  have answer: "fst (redirect_short_code (ShortenResponse.short_code resp) request now2
      (SessionLocal d2)) = Inr \<lparr>url = ?u, status_code = 302\<rparr>"
    by simp
  have header: "location \<lparr>url = ?u, status_code = 302\<rparr> = quote ?u '':/%#?=@[]!$&'()*+,;''"
    by (simp add: location_def)
  from answer orig header quote_eq_iff [of ?u "'':/%#?=@[]!$&'()*+,;''"]
  show ?thesis
    by (intro exI [of _ "\<lparr>url = ?u, status_code = 302\<rparr>"]) (simp only: simp_thms)
qed

theorem shorten_then_redirect_witness:
  "create_short_url example_payload 100 example_rng (SessionLocal empty_database)
     = (Inr \<lparr>ShortenResponse.short_code = ''aB7xK9m'', original_url = ''https://example.com/a''\<rparr>,
        advance 7 example_rng, SessionLocal example_database)
   \<and> reachable_from example_database example_clicked
   \<and> fst (redirect_short_code ''aB7xK9m'' example_request 400 (SessionLocal example_clicked))
     = Inr \<lparr>url = ''https://example.com/a'', status_code = 302\<rparr>
   \<and> location \<lparr>url = ''https://example.com/a'', status_code = 302\<rparr> = ''https://example.com/a''"
proof -
  have later: "reachable_from example_database example_clicked"
    using reachable_from.redirect [OF reachable_from.same example_redirect] by simp
  have safe: "set ''https://example.com/a'' \<subseteq> set always_safe \<union> set '':/%#?=@[]!$&'()*+,;''"
    by (simp add: always_safe_def)
  from shorten_then_redirect [OF example_shorten, where ?d2.0 = example_clicked
      and request = example_request and ?now2.0 = 400] later safe
  have "fst (redirect_short_code ''aB7xK9m'' example_request 400 (SessionLocal example_clicked))
     = Inr \<lparr>url = ''https://example.com/a'', status_code = 302\<rparr>
   \<and> location \<lparr>url = ''https://example.com/a'', status_code = 302\<rparr> = ''https://example.com/a''"
    by (auto simp: example_payload_def)
  with example_shorten later show ?thesis by (intro conjI) simp_all
qed

end
